theory Spec2Isabelle
  imports Main "HOL-Library.AList"
begin

section \<open>MunkiServerUploader: an AutoPkg processor that uploads a package to munkiserver\<close>

text \<open>
  The processor is Python 2 code (\<^verbatim>\<open>#!/usr/bin/python\<close>, \<^verbatim>\<open>plistlib.readPlist\<close>).
  A Python 2 \<^verbatim>\<open>str\<close> is a sequence of 8-bit characters and is modelled as \<^typ>\<open>string\<close>.
  Everything the processor does to the outside (printing, running \<^verbatim>\<open>makepkginfo\<close> and
  \<^verbatim>\<open>curl\<close>, writing the plist, calling Slack) is recorded as an event of a trace, in the
  order of the calls; what the outside answers is a parameter, the \<open>world\<close>.
\<close>

subsection \<open>Python values and exceptions\<close>

datatype pyval =
    PyNone
  | PyBool bool
  | PyInt int
  | PyStr string
  | PyList "pyval list"
  | PyDict "(string \<times> pyval) list"

datatype error =
    KeyError | TypeError | ValueError | IOError | OSError | ExpatError | AttributeError
  | SlackError

text \<open>The truth value Python's \<^verbatim>\<open>if\<close> and \<^verbatim>\<open>not\<close> give a value.\<close>

fun truthy :: "pyval \<Rightarrow> bool" where
  "truthy PyNone = False"
| "truthy (PyBool b) = b"
| "truthy (PyInt i) = (i \<noteq> 0)"
| "truthy (PyStr s) = (s \<noteq> [])"
| "truthy (PyList xs) = (xs \<noteq> [])"
| "truthy (PyDict d) = (d \<noteq> [])"

text \<open>\<^verbatim>\<open>v[k]\<close> with a string key: a dict without the key raises KeyError, and a
  value of any other type raises TypeError.\<close>

fun getitem :: "pyval \<Rightarrow> string \<Rightarrow> error + pyval" where
  "getitem (PyDict d) k = (case map_of d k of None \<Rightarrow> Inl KeyError | Some v \<Rightarrow> Inr v)"
| "getitem _ k = Inl TypeError"

text \<open>\<^verbatim>\<open>v[k] = x\<close> with a string key.\<close>

fun setitem :: "pyval \<Rightarrow> string \<Rightarrow> pyval \<Rightarrow> error + pyval" where
  "setitem (PyDict d) k x = Inr (PyDict (AList.update k x d))"
| "setitem _ k x = Inl TypeError"

text \<open>\<^verbatim>\<open>a + b\<close>: strings and lists concatenate, booleans and integers add as numbers,
  every other pair of operands raises TypeError.\<close>

fun py_add :: "pyval \<Rightarrow> pyval \<Rightarrow> error + pyval" where
  "py_add (PyStr a) (PyStr b) = Inr (PyStr (a @ b))"
| "py_add (PyList a) (PyList b) = Inr (PyList (a @ b))"
| "py_add (PyInt a) (PyInt b) = Inr (PyInt (a + b))"
| "py_add (PyInt a) (PyBool b) = Inr (PyInt (a + (if b then 1 else 0)))"
| "py_add (PyBool a) (PyInt b) = Inr (PyInt ((if a then 1 else 0) + b))"
| "py_add (PyBool a) (PyBool b) = Inr (PyInt ((if a then 1 else 0) + (if b then 1 else 0)))"
| "py_add _ _ = Inl TypeError"

definition sbind :: "error + 'a \<Rightarrow> ('a \<Rightarrow> error + 'b) \<Rightarrow> error + 'b" where
  "sbind r f = (case r of Inl e \<Rightarrow> Inl e | Inr x \<Rightarrow> f x)"

subsection \<open>The sanitization substitution\<close>

text \<open>
  \<^verbatim>\<open>re.sub('[^a-zA-Z0-9.-]+', '_', s)\<close>: the character class of the pattern is the
  complement of \<open>allowed\<close>; the \<^verbatim>\<open>+\<close> is greedy, so every maximal run of characters
  outside the class is one match, and each match is replaced by one underscore.
\<close>

definition allowed :: "char \<Rightarrow> bool" where
  "allowed c \<longleftrightarrow>
     c \<in> set (''abcdefghijklmnopqrstuvwxyz'' @ ''ABCDEFGHIJKLMNOPQRSTUVWXYZ''
              @ ''0123456789'' @ ''.-'')"

function re_sub :: "string \<Rightarrow> string" where
  "re_sub [] = []"
| "re_sub (c # cs) =
     (if allowed c then c # re_sub cs
      else CHR ''_'' # re_sub (dropWhile (\<lambda>x. \<not> allowed x) cs))"
  by pat_completeness auto
termination
  by (relation "measure length") (auto simp: less_Suc_eq_le length_dropWhile_le)

text \<open>\<^verbatim>\<open>re.sub\<close> raises TypeError when its subject is not a string.\<close>

fun py_re_sub :: "pyval \<Rightarrow> error + pyval" where
  "py_re_sub (PyStr s) = Inr (PyStr (re_sub s))"
| "py_re_sub _ = Inl TypeError"

text \<open>Lines 97 and 98: \<^verbatim>\<open>plist[k] = re.sub('[^a-zA-Z0-9.-]+', '_', plist[k])\<close>.\<close>

definition sanitize_field :: "pyval \<Rightarrow> string \<Rightarrow> error + pyval" where
  "sanitize_field plist k =
     sbind (getitem plist k) (\<lambda>v. sbind (py_re_sub v) (\<lambda>v'. setitem plist k v'))"

subsection \<open>The outside world, the state and the trace\<close>

text \<open>A file holds a well-formed property list with a value, or anything else
  (a package, a directory, output that is not a plist).\<close>

datatype content = Plist pyval | Other

datatype event =
    Output pyval \<comment> \<open>\<^verbatim>\<open>self.output(msg)\<close>\<close>
  | RunMakePkgInfo "string list" \<comment> \<open>\<^verbatim>\<open>subprocess.call(args, ...)\<close>, line 93\<close>
  | WritePlist string pyval \<comment> \<open>\<^verbatim>\<open>plistlib.writePlist(plist, path)\<close>, line 99\<close>
  | ExistenceQuery "string list" \<comment> \<open>the \<^verbatim>\<open>subprocess.Popen\<close> of line 147\<close>
  | Upload "string list" \<comment> \<open>the \<^verbatim>\<open>subprocess.Popen\<close> of line 171\<close>
  | Notify pyval pyval \<comment> \<open>\<^verbatim>\<open>sc.api_call("chat.postMessage", ...)\<close>: token and text\<close>

record world =
  os_environ :: "string \<rightharpoonup> string" \<comment> \<open>the process environment read by the defaults\<close>
  writable :: "string \<Rightarrow> bool" \<comment> \<open>whether \<^verbatim>\<open>open(path, "wb")\<close> succeeds\<close>
  makepkginfo :: "string list \<Rightarrow> content option"
    \<comment> \<open>what the tool writes to its standard output; \<open>None\<close> when it cannot be run\<close>
  curl :: "string list \<Rightarrow> string option"
    \<comment> \<open>the standard output of the HTTP client; \<open>None\<close> when it cannot be run\<close>
  json_loads :: "string \<Rightarrow> pyval option" \<comment> \<open>\<open>None\<close> when the text is not JSON\<close>
  slack_api_call :: "pyval \<Rightarrow> pyval \<Rightarrow> error + pyval"

record state =
  env :: "string \<rightharpoonup> pyval" \<comment> \<open>\<^verbatim>\<open>self.env\<close>\<close>
  fs :: "string \<rightharpoonup> content" \<comment> \<open>the files on disk\<close>
  trace :: "event list"

type_synonym 'a exec = "state \<Rightarrow> (error + 'a) \<times> state"

definition ret :: "'a \<Rightarrow> 'a exec" where
  "ret x = (\<lambda>s. (Inr x, s))"

definition raise :: "error \<Rightarrow> 'a exec" where
  "raise e = (\<lambda>s. (Inl e, s))"

definition then_do :: "'a exec \<Rightarrow> ('a \<Rightarrow> 'b exec) \<Rightarrow> 'b exec" where
  "then_do m f = (\<lambda>s. case m s of (Inl e, s') \<Rightarrow> (Inl e, s') | (Inr x, s') \<Rightarrow> f x s')"

text \<open>An expression that only reads \<^verbatim>\<open>self.env\<close>.\<close>

definition reading :: "((string \<rightharpoonup> pyval) \<Rightarrow> error + 'a) \<Rightarrow> 'a exec" where
  "reading f = (\<lambda>s. (f (env s), s))"

definition emit :: "event \<Rightarrow> unit exec" where
  "emit ev = (\<lambda>s. (Inr (), s\<lparr>trace := trace s @ [ev]\<rparr>))"

definition self_output :: "pyval \<Rightarrow> unit exec" where
  "self_output msg = emit (Output msg)"

text \<open>\<^verbatim>\<open>self.env[k]\<close> raises KeyError for a missing key; \<^verbatim>\<open>self.env.get(k)\<close> gives
  \<^verbatim>\<open>None\<close> for it.\<close>

definition item :: "(string \<rightharpoonup> pyval) \<Rightarrow> string \<Rightarrow> error + pyval" where
  "item e k = (case e k of None \<Rightarrow> Inl KeyError | Some v \<Rightarrow> Inr v)"

definition dict_get :: "(string \<rightharpoonup> pyval) \<Rightarrow> string \<Rightarrow> pyval" where
  "dict_get e k = (case e k of None \<Rightarrow> PyNone | Some v \<Rightarrow> v)"

definition set_env :: "string \<Rightarrow> pyval \<Rightarrow> unit exec" where
  "set_env k v = (\<lambda>s. (Inr (), s\<lparr>env := (env s)(k \<mapsto> v)\<rparr>))"

text \<open>A process is started with a list of strings; any other argument raises TypeError.\<close>

fun strs :: "pyval list \<Rightarrow> string list option" where
  "strs [] = Some []"
| "strs (PyStr s # vs) = (case strs vs of None \<Rightarrow> None | Some ss \<Rightarrow> Some (s # ss))"
| "strs (_ # vs) = None"

text \<open>\<^verbatim>\<open>os.path.exists(path)\<close>; in Python 2 a path that is not a string raises TypeError.\<close>

definition path_exists :: "pyval \<Rightarrow> bool exec" where
  "path_exists path =
     (\<lambda>s. (case path of PyStr p \<Rightarrow> Inr (fs s p \<noteq> None) | _ \<Rightarrow> Inl TypeError, s))"

text \<open>\<^verbatim>\<open>plistlib.readPlist(path)\<close>.\<close>

definition readPlist :: "pyval \<Rightarrow> pyval exec" where
  "readPlist path =
     (\<lambda>s. (case path of
              PyStr p \<Rightarrow>
                (case fs s p of
                   None \<Rightarrow> Inl IOError
                 | Some (Plist v) \<Rightarrow> Inr v
                 | Some Other \<Rightarrow> Inl ExpatError)
            | _ \<Rightarrow> Inl AttributeError, s))"

text \<open>\<^verbatim>\<open>plistlib.writePlist(plist, path)\<close>.\<close>

definition writePlist :: "pyval \<Rightarrow> pyval \<Rightarrow> unit exec" where
  "writePlist plist path =
     (\<lambda>s. case path of
            PyStr p \<Rightarrow>
              (Inr (), s\<lparr>fs := (fs s)(p \<mapsto> Plist plist), trace := trace s @ [WritePlist p plist]\<rparr>)
          | _ \<Rightarrow> (Inl AttributeError, s))"

text \<open>\<^verbatim>\<open>open(path, "wb")\<close> creates or empties the file.\<close>

definition open_wb :: "world \<Rightarrow> pyval \<Rightarrow> unit exec" where
  "open_wb w path =
     (\<lambda>s. case path of
            PyStr p \<Rightarrow>
              if writable w p then (Inr (), s\<lparr>fs := (fs s)(p \<mapsto> Other)\<rparr>) else (Inl IOError, s)
          | _ \<Rightarrow> (Inl TypeError, s))"

text \<open>\<^verbatim>\<open>subprocess.call(args, stdout=pkginfo_file_handle)\<close>: the standard output of the
  tool becomes the content of the file; the return code is not looked at.\<close>

definition subprocess_call :: "world \<Rightarrow> pyval list \<Rightarrow> pyval \<Rightarrow> unit exec" where
  "subprocess_call w args path =
     (\<lambda>s. case strs args of
            None \<Rightarrow> (Inl TypeError, s)
          | Some a \<Rightarrow>
              (case makepkginfo w a of
                 None \<Rightarrow> (Inl OSError, s)
               | Some f \<Rightarrow>
                   (case path of
                      PyStr p \<Rightarrow>
                        (Inr (), s\<lparr>fs := (fs s)(p \<mapsto> f), trace := trace s @ [RunMakePkgInfo a]\<rparr>)
                    | _ \<Rightarrow> (Inl TypeError, s))))"

text \<open>\<^verbatim>\<open>subprocess.Popen(curl_cmd, ...)\<close> followed by \<^verbatim>\<open>p.stdout.read()\<close>. The event
  constructor tells the two call sites apart.\<close>

definition popen_read :: "world \<Rightarrow> (string list \<Rightarrow> event) \<Rightarrow> pyval list \<Rightarrow> string exec" where
  "popen_read w site cmd =
     (case strs cmd of
        None \<Rightarrow> raise TypeError
      | Some a \<Rightarrow>
          (case curl w a of
             None \<Rightarrow> raise OSError
           | Some body \<Rightarrow> then_do (emit (site a)) (\<lambda>_. ret body)))"

text \<open>\<^verbatim>\<open>json.loads(text)\<close> raises ValueError when the text is not JSON.\<close>

definition loads :: "world \<Rightarrow> string \<Rightarrow> pyval exec" where
  "loads w body = (case json_loads w body of None \<Rightarrow> raise ValueError | Some v \<Rightarrow> ret v)"

definition lift :: "error + 'a \<Rightarrow> 'a exec" where
  "lift r = (\<lambda>s. (r, s))"

subsection \<open>Generating the metadata: \<^verbatim>\<open>make_pkg_info\<close>, lines 79 to 99\<close>

text \<open>\<^verbatim>\<open>if self.env.get(k): args.extend([flag, self.env[k]])\<close>.\<close>

definition optional_arg :: "(string \<rightharpoonup> pyval) \<Rightarrow> string \<Rightarrow> string \<Rightarrow> error + pyval list" where
  "optional_arg e k flag =
     (if truthy (dict_get e k) then sbind (item e k) (\<lambda>v. Inr [PyStr flag, v]) else Inr [])"

definition makepkginfo_args :: "(string \<rightharpoonup> pyval) \<Rightarrow> error + pyval list" where
  "makepkginfo_args e =
     sbind (item e ''package_file'') (\<lambda>pf.
     sbind (optional_arg e ''pkginfo_name'' ''--name'') (\<lambda>a1.
     sbind (optional_arg e ''pkginfo_displayname'' ''--displayname'') (\<lambda>a2.
     sbind (optional_arg e ''pkginfo_destinationpath'' ''--destinationpath'') (\<lambda>a3.
     Inr ([PyStr ''/usr/local/munki/makepkginfo'', pf] @ a1 @ a2 @ a3)))))"

definition make_pkg_info :: "world \<Rightarrow> unit exec" where
  "make_pkg_info w =
     then_do (reading makepkginfo_args) (\<lambda>args.
     then_do (reading (\<lambda>e. sbind (item e ''package_file'')
                              (\<lambda>pf. py_add pf (PyStr ''.plist'')))) (\<lambda>new_path.
     then_do (set_env ''pkginfo_file'' new_path) (\<lambda>_.
     then_do (reading (\<lambda>e. item e ''pkginfo_file'')) (\<lambda>path.
     then_do (open_wb w path) (\<lambda>_.
     then_do (reading (\<lambda>e. sbind (item e ''pkginfo_file'')
                (py_add (PyStr ''No pkginfo file specified.  Creating '')))) (\<lambda>msg.
     then_do (self_output msg) (\<lambda>_.
     then_do (subprocess_call w args path) (\<lambda>_.
     then_do (readPlist path) (\<lambda>plist.
     then_do (lift (sanitize_field plist ''name'')) (\<lambda>plist1.
     then_do (lift (sanitize_field plist1 ''version'')) (\<lambda>plist2.
     writePlist plist2 path)))))))))))"

subsection \<open>The notifier: \<^verbatim>\<open>send_slack_notification\<close>, lines 101 to 107\<close>

text \<open>\<^verbatim>\<open>sc.api_call("chat.postMessage", ..., text=message)\<close> with the client made from the
  token.\<close>

definition api_call :: "world \<Rightarrow> pyval \<Rightarrow> pyval \<Rightarrow> pyval exec" where
  "api_call w token message =
     then_do (emit (Notify token message)) (\<lambda>_. lift (slack_api_call w token message))"

definition send_slack_notification :: "world \<Rightarrow> pyval \<Rightarrow> unit exec" where
  "send_slack_notification w message =
     then_do (reading (\<lambda>e. item e ''slack_api_token'')) (\<lambda>token.
     then_do (api_call w token message) (\<lambda>result.
     then_do (lift (getitem result ''ok'')) (\<lambda>ok.
     if \<not> truthy ok then
       then_do (lift (py_add (PyStr ''Failed to send Slack notification: '') result)) self_output
     else ret ())))"

subsection \<open>The flow: \<^verbatim>\<open>main\<close>, lines 109 to 183\<close>

text \<open>Lines 111 to 121. The result is \<open>False\<close> where \<^verbatim>\<open>main\<close> returns.\<close>

definition locate_artifact :: "bool exec" where
  "locate_artifact =
     then_do (reading (\<lambda>e. item e ''package_file'')) (\<lambda>pf.
     then_do
       (if \<not> truthy pf then
          then_do (reading (\<lambda>e. item e ''pathname'')) (\<lambda>pn.
            if truthy pn then then_do (set_env ''package_file'' pn) (\<lambda>_. ret True)
            else then_do (self_output (PyStr ''No package file pathname provided''))
                   (\<lambda>_. ret False))
        else ret True) (\<lambda>go.
     if \<not> go then ret False
     else
       then_do (reading (\<lambda>e. item e ''package_file'')) (\<lambda>pf.
       then_do (path_exists pf) (\<lambda>found.
       if \<not> found then
         then_do (reading (\<lambda>e. sbind (item e ''package_file'')
                    (py_add (PyStr ''package_file path:  '')))) (\<lambda>msg.
         then_do (self_output msg) (\<lambda>_.
         then_do (self_output (PyStr ''Package file not found'')) (\<lambda>_. ret False)))
       else ret True))))"

text \<open>Lines 123 to 129.\<close>

definition ensure_metadata :: "world \<Rightarrow> bool exec" where
  "ensure_metadata w =
     (\<lambda>s. if env s ''pkginfo_file'' = None then then_do (make_pkg_info w) (\<lambda>_. ret True) s
          else
            then_do (reading (\<lambda>e. item e ''pkginfo_file'')) (\<lambda>path.
            then_do (path_exists path) (\<lambda>found.
            if \<not> found then
              then_do (self_output (PyStr ''pkginfo file specified but not found''))
                (\<lambda>_. ret False)
            else ret True)) s)"

text \<open>Lines 130 to 132.\<close>

definition read_metadata :: "(pyval \<times> pyval) exec" where
  "read_metadata =
     then_do (reading (\<lambda>e. item e ''pkginfo_file'')) (\<lambda>path.
     then_do (readPlist path) (\<lambda>pkginfo.
     then_do (lift (getitem pkginfo ''name'')) (\<lambda>app_name.
     then_do (lift (getitem pkginfo ''version'')) (\<lambda>app_version.
     ret (app_name, app_version)))))"

definition config_hint :: pyval where
  "config_hint = PyStr (''Unable to construct curl command.  Have you set the ''
     @ ''MUNKISERVER_API_URL, MUNKISERVER_API_KEY, and MUNKISERVER_UNIT ''
     @ ''environment variables?'')"

text \<open>The body of the \<^verbatim>\<open>try\<close> of lines 136 to 142.\<close>

definition query_cmd :: "(string \<rightharpoonup> pyval) \<Rightarrow> pyval \<Rightarrow> pyval \<Rightarrow> error + pyval list" where
  "query_cmd e app_name app_version =
     sbind (item e ''api_url'') (\<lambda>a.
     sbind (py_add a (PyStr ''/'')) (\<lambda>x1.
     sbind (item e ''unit'') (\<lambda>u.
     sbind (py_add x1 u) (\<lambda>x2.
     sbind (py_add x2 (PyStr ''/packages/'')) (\<lambda>x3.
     sbind (py_add x3 app_name) (\<lambda>x4.
     sbind (py_add x4 (PyStr ''/'')) (\<lambda>x5.
     sbind (py_add x5 app_version) (\<lambda>api_url.
     sbind (item e ''CURL_PATH'') (\<lambda>c.
     sbind (item e ''api_key'') (\<lambda>k.
     sbind (py_add (PyStr ''X-Api-Key: '') k) (\<lambda>h.
     Inr [c, PyStr ''--header'', h, PyStr ''--url'', api_url])))))))))))"

text \<open>Lines 135 to 155. The result is \<open>False\<close> where \<^verbatim>\<open>main\<close> returns.\<close>

definition check_existence :: "world \<Rightarrow> pyval \<Rightarrow> pyval \<Rightarrow> bool exec" where
  "check_existence w app_name app_version =
     (\<lambda>s. case query_cmd (env s) app_name app_version of
            Inl _ \<Rightarrow> then_do (self_output config_hint) (\<lambda>_. ret False) s
          | Inr cmd \<Rightarrow>
              then_do (popen_read w ExistenceQuery cmd) (\<lambda>body.
              then_do (loads w body) (\<lambda>response.
              then_do (lift (getitem response ''exists'')) (\<lambda>ex.
              if truthy ex then
                then_do (lift (sbind (py_add app_name (PyStr '' version '')) (\<lambda>x.
                               sbind (py_add x app_version) (\<lambda>y.
                               py_add y (PyStr '' is already in munkiserver.  Quitting.''))))) (\<lambda>msg.
                then_do (self_output msg) (\<lambda>_. ret False))
              else ret True))) s)"

text \<open>The body of the \<^verbatim>\<open>try\<close> of lines 159 to 165.\<close>

definition upload_cmd :: "(string \<rightharpoonup> pyval) \<Rightarrow> error + pyval list" where
  "upload_cmd e =
     sbind (item e ''api_url'') (\<lambda>a.
     sbind (py_add a (PyStr ''/'')) (\<lambda>x1.
     sbind (item e ''unit'') (\<lambda>u.
     sbind (py_add x1 u) (\<lambda>x2.
     sbind (py_add x2 (PyStr ''/packages'')) (\<lambda>api_url.
     sbind (item e ''CURL_PATH'') (\<lambda>c.
     sbind (item e ''api_key'') (\<lambda>k.
     sbind (py_add (PyStr ''X-Api-Key: '') k) (\<lambda>h.
     sbind (item e ''pkginfo_file'') (\<lambda>pi.
     sbind (py_add (PyStr ''pkginfo_file=@'') pi) (\<lambda>f1.
     sbind (item e ''package_file'') (\<lambda>pf.
     sbind (py_add (PyStr ''package_file=@'') pf) (\<lambda>f2.
     Inr [c, PyStr ''--header'', h, PyStr ''-F'', f1, PyStr ''-F'', f2,
          PyStr ''--url'', api_url]))))))))))))"

definition notice :: string where
  "notice = ''A new package has been uploaded to Staging.  Please check the settings, ''
     @ ''test it, and put it into production:  ''"

text \<open>Lines 157 to 183.\<close>

definition upload :: "world \<Rightarrow> unit exec" where
  "upload w =
     (\<lambda>s. case upload_cmd (env s) of
            Inl _ \<Rightarrow> self_output config_hint s
          | Inr cmd \<Rightarrow>
              then_do (popen_read w Upload cmd) (\<lambda>body.
              then_do (loads w body) (\<lambda>response.
              then_do (lift (getitem response ''type'')) (\<lambda>t.
              if t = PyStr ''success'' then
                then_do (lift (sbind (getitem response ''message'')
                           (py_add (PyStr ''Upload succeeded: '')))) (\<lambda>m1.
                then_do (self_output m1) (\<lambda>_.
                then_do (lift (sbind (getitem response ''edit_url'')
                           (py_add (PyStr ''URL: '')))) (\<lambda>m2.
                then_do (self_output m2) (\<lambda>_.
                then_do (lift (sbind (getitem response ''edit_url'')
                           (py_add (PyStr notice)))) (\<lambda>m3.
                send_slack_notification w m3)))))
              else
                then_do (lift (sbind (getitem response ''message'')
                           (py_add (PyStr ''Upload failed: '')))) self_output))) s)"

text \<open>Lines 111 to 132: the artifact and the metadata. The result is \<open>None\<close> where
  \<^verbatim>\<open>main\<close> returns, and the \<^verbatim>\<open>app_name\<close> and \<^verbatim>\<open>app_version\<close> otherwise.\<close>

definition prepare :: "world \<Rightarrow> (pyval \<times> pyval) option exec" where
  "prepare w =
     then_do locate_artifact (\<lambda>go.
     if \<not> go then ret None
     else
       then_do (ensure_metadata w) (\<lambda>go.
       if \<not> go then ret None
       else then_do read_metadata (\<lambda>nv. ret (Some nv))))"

text \<open>Lines 134 to 183: the two calls of the registry.\<close>

definition registry :: "world \<Rightarrow> pyval \<Rightarrow> pyval \<Rightarrow> unit exec" where
  "registry w app_name app_version =
     then_do (check_existence w app_name app_version) (\<lambda>go.
     if \<not> go then ret () else upload w)"

definition main :: "world \<Rightarrow> unit exec" where
  "main w =
     then_do (prepare w) (\<lambda>m.
     case m of
       None \<Rightarrow> ret ()
     | Some (app_name, app_version) \<Rightarrow> registry w app_name app_version)"

subsection \<open>The entry point\<close>

text \<open>
  The table \<^verbatim>\<open>input_variables\<close>, lines 21 to 72: the variables that have a default, with
  the default read from the process environment. \<^verbatim>\<open>os.environ.get\<close> gives \<^verbatim>\<open>None\<close>
  for a variable that is not set.
\<close>

definition environ_get :: "(string \<rightharpoonup> string) \<Rightarrow> string \<Rightarrow> pyval" where
  "environ_get os k = (case os k of None \<Rightarrow> PyNone | Some v \<Rightarrow> PyStr v)"

definition input_defaults :: "(string \<rightharpoonup> string) \<Rightarrow> (string \<times> pyval) list" where
  "input_defaults os =
     [(''api_url'', environ_get os ''MUNKISERVER_API_URL''),
      (''api_key'', environ_get os ''MUNKISERVER_API_KEY''),
      (''unit'', case os ''MUNKISERVER_UNIT'' of
                   None \<Rightarrow> PyStr ''communication'' | Some v \<Rightarrow> PyStr v),
      (''package_file'', environ_get os ''pathname''),
      (''pkginfo_name'', environ_get os ''PKGINFO_NAME''),
      (''pkginfo_displayname'', environ_get os ''PKGINFO_DISPLAYNAME''),
      (''CURL_PATH'', PyStr ''/usr/bin/curl''),
      (''slack_api_token'', environ_get os ''SLACK_API_TOKEN'')]"

text \<open>
  \<^verbatim>\<open>PROCESSOR.execute_shell()\<close>, line 188, is inherited from the host framework: it gives
  every input variable that has a default and is not in the environment of the run its
  default, and calls \<^verbatim>\<open>main\<close>. The run starts from the variables \<open>e\<close> the recipe
  supplies and the files \<open>f\<close> on disk.
\<close>

definition apply_defaults :: "(string \<rightharpoonup> string) \<Rightarrow> (string \<rightharpoonup> pyval) \<Rightarrow> (string \<rightharpoonup> pyval)" where
  "apply_defaults os e =
     (\<lambda>k. case e k of None \<Rightarrow> map_of (input_defaults os) k | Some v \<Rightarrow> Some v)"

definition initial :: "world \<Rightarrow> (string \<rightharpoonup> pyval) \<Rightarrow> (string \<rightharpoonup> content) \<Rightarrow> state" where
  "initial w e f = \<lparr>env = apply_defaults (os_environ w) e, fs = f, trace = []\<rparr>"

definition process :: "world \<Rightarrow> (string \<rightharpoonup> pyval) \<Rightarrow> (string \<rightharpoonup> content) \<Rightarrow> (error + unit) \<times> state" where
  "process w e f = main w (initial w e f)"

definition outcome :: "world \<Rightarrow> (string \<rightharpoonup> pyval) \<Rightarrow> (string \<rightharpoonup> content) \<Rightarrow> error + unit" where
  "outcome w e f = fst (process w e f)"

definition events :: "world \<Rightarrow> (string \<rightharpoonup> pyval) \<Rightarrow> (string \<rightharpoonup> content) \<Rightarrow> event list" where
  "events w e f = trace (snd (process w e f))"

text \<open>What a call of the HTTP client answers, parsed: \<open>None\<close> when the client cannot be
  run or its output is not JSON; and a field of a parsed answer.\<close>

definition reply :: "world \<Rightarrow> string list \<Rightarrow> pyval option" where
  "reply w cmd = (case curl w cmd of None \<Rightarrow> None | Some body \<Rightarrow> json_loads w body)"

fun field :: "pyval option \<Rightarrow> string \<Rightarrow> pyval option" where
  "field (Some (PyDict d)) k = map_of d k"
| "field _ k = None"

subsection \<open>Auxiliary notions for the proofs\<close>

text \<open>The calls that leave the machine: the two requests to the registry and the
  notification.\<close>

fun is_call :: "event \<Rightarrow> bool" where
  "is_call (ExistenceQuery _) = True"
| "is_call (Upload _) = True"
| "is_call (Notify _ _) = True"
| "is_call _ = False"

fun is_output :: "event \<Rightarrow> bool" where
  "is_output (Output _) = True"
| "is_output _ = False"

fun is_notify :: "event \<Rightarrow> bool" where
  "is_notify (Notify _ _) = True"
| "is_notify _ = False"

text \<open>A step is quiet when it only appends events that are not calls and leaves every
  variable of the environment but \<^verbatim>\<open>package_file\<close> and \<^verbatim>\<open>pkginfo_file\<close> as it was.\<close>

definition quiet :: "state \<Rightarrow> state \<Rightarrow> bool" where
  "quiet s s' \<longleftrightarrow>
     (\<exists>evs. trace s' = trace s @ evs \<and> (\<forall>ev \<in> set evs. \<not> is_call ev)) \<and>
     (\<forall>k. k \<noteq> ''package_file'' \<and> k \<noteq> ''pkginfo_file'' \<longrightarrow> env s' k = env s k)"

text \<open>A variable is absent when the environment has no such key or holds \<^verbatim>\<open>None\<close> for
  it, which is what the default gives when the variable of the process environment is
  not set.\<close>

definition absent :: "(string \<rightharpoonup> pyval) \<Rightarrow> string \<Rightarrow> bool" where
  "absent e k \<longleftrightarrow> e k = None \<or> e k = Some PyNone"

definition asked :: "world \<Rightarrow> (string \<rightharpoonup> pyval) \<Rightarrow> pyval \<Rightarrow> pyval \<Rightarrow> string list \<Rightarrow> pyval \<Rightarrow> bool" where
  "asked w e n v q ex \<longleftrightarrow>
     (\<exists>cmd resp. query_cmd e n v = Inr cmd \<and> strs cmd = Some q \<and>
        reply w q = Some resp \<and> getitem resp ''exists'' = Inr ex)"

definition sent :: "world \<Rightarrow> (string \<rightharpoonup> pyval) \<Rightarrow> string list \<Rightarrow> pyval \<Rightarrow> bool" where
  "sent w e u resp \<longleftrightarrow>
     (\<exists>cmd. upload_cmd e = Inr cmd \<and> strs cmd = Some u \<and> reply w u = Some resp)"

subsection \<open>Concrete runs\<close>

text \<open>A stub of the outside world for the concrete runs below: the registry answers the
  existence query and the upload with the two given texts, and Slack with the given value.
  The stub of the JSON parser knows the four answers of the interface and takes any
  other text as not being JSON.\<close>

definition exists_true_body :: string where
  \<open>exists_true_body = ''{"exists": true}''\<close>

definition exists_false_body :: string where
  \<open>exists_false_body = ''{"exists": false}''\<close>

definition upload_success_body :: string where
  \<open>upload_success_body = ''{"type":"success","message":"ok","edit_url":"http://x"}''\<close>

definition upload_error_body :: string where
  \<open>upload_error_body = ''{"type":"error","message":"bad"}''\<close>

definition json_loads_stub :: "string \<Rightarrow> pyval option" where
  "json_loads_stub body =
     (if body = exists_true_body then Some (PyDict [(''exists'', PyBool True)])
      else if body = exists_false_body then Some (PyDict [(''exists'', PyBool False)])
      else if body = upload_success_body then
        Some (PyDict [(''type'', PyStr ''success''), (''message'', PyStr ''ok''),
                      (''edit_url'', PyStr ''http://x'')])
      else if body = upload_error_body then
        Some (PyDict [(''type'', PyStr ''error''), (''message'', PyStr ''bad'')])
      else None)"

definition stub :: "(string \<rightharpoonup> string) \<Rightarrow> string \<Rightarrow> string \<Rightarrow> pyval \<Rightarrow> world" where
  "stub os query_body upload_body slack =
     \<lparr>os_environ = os,
      writable = (\<lambda>_. True),
      makepkginfo = (\<lambda>args. Some (Plist (PyDict
         [(''name'', PyStr ''My App''), (''version'', PyStr ''1.0 (beta)''),
          (''catalogs'', PyList [PyStr ''testing''])]))),
      curl = (\<lambda>args. if ''-F'' \<in> set args then Some upload_body else Some query_body),
      json_loads = json_loads_stub,
      slack_api_call = (\<lambda>_ _. Inr slack)\<rparr>"

definition configured :: "string \<rightharpoonup> string" where
  "configured = [''MUNKISERVER_API_URL'' \<mapsto> ''https://munki.example/api'',
                 ''MUNKISERVER_API_KEY'' \<mapsto> ''k3y'', ''SLACK_API_TOKEN'' \<mapsto> ''xoxb'']"

definition slack_ok :: pyval where
  "slack_ok = PyDict [(''ok'', PyBool True)]"

definition slack_refused :: pyval where
  "slack_refused = PyDict [(''ok'', PyBool False), (''error'', PyStr ''invalid_auth'')]"

definition unconfigured :: "string \<rightharpoonup> string" where
  "unconfigured = [''MUNKISERVER_API_KEY'' \<mapsto> ''k3y'']"

definition not_json_body :: string where
  "not_json_body = ''<html>Bad Gateway</html>''"

text \<open>A recipe that names the package only, and one that supplies a metadata file too.\<close>

definition recipe :: "string \<rightharpoonup> pyval" where
  "recipe = [''package_file'' \<mapsto> PyStr ''/tmp/App.pkg'']"

definition disk :: "string \<rightharpoonup> content" where
  "disk = [''/tmp/App.pkg'' \<mapsto> Other]"

definition recipe_with_pkginfo :: "string \<rightharpoonup> pyval" where
  "recipe_with_pkginfo = [''package_file'' \<mapsto> PyStr ''/tmp/App.pkg'',
                          ''pkginfo_file'' \<mapsto> PyStr ''/tmp/App.plist'']"

definition recipe_missing :: "string \<rightharpoonup> pyval" where
  "recipe_missing = [''package_file'' \<mapsto> PyStr ''/tmp/Missing.pkg'']"

definition disk_with_pkginfo :: "string \<rightharpoonup> content" where
  "disk_with_pkginfo = [''/tmp/App.pkg'' \<mapsto> Other,
     ''/tmp/App.plist'' \<mapsto> Plist (PyDict [(''name'', PyStr ''My App''),
                                             (''version'', PyStr ''1.0 (beta)'')])]"

section \<open>Properties\<close>

subsection \<open>The substitution\<close>

lemma re_sub_chars: "c \<in> set (re_sub s) \<Longrightarrow> allowed c \<or> c = CHR ''_''"
  by (induction s rule: re_sub.induct) (auto split: if_splits dest: set_dropWhileD)

lemma underscore_not_allowed: "\<not> allowed CHR ''_''"
  by (simp add: allowed_def)

lemma filter_allowed_dropWhile:
  "filter allowed (dropWhile (\<lambda>x. \<not> allowed x) cs) = filter allowed cs"
  by (induction cs) auto

lemma re_sub_keeps_allowed: "filter allowed (re_sub s) = filter allowed s"
  by (induction s rule: re_sub.induct)
    (simp_all add: filter_allowed_dropWhile underscore_not_allowed)

lemma re_sub_head:
  "s = [] \<or> allowed (hd s) \<Longrightarrow> re_sub s = [] \<or> allowed (hd (re_sub s))"
  by (cases s) auto

lemma dropWhile_re_sub:
  "dropWhile (\<lambda>x. \<not> allowed x) (re_sub (dropWhile (\<lambda>x. \<not> allowed x) cs))
     = re_sub (dropWhile (\<lambda>x. \<not> allowed x) cs)"
proof -
  let ?d = "dropWhile (\<lambda>x. \<not> allowed x) cs"
  have "?d = [] \<or> allowed (hd ?d)"
    using hd_dropWhile [of "\<lambda>x. \<not> allowed x" cs] by auto
  then have "re_sub ?d = [] \<or> allowed (hd (re_sub ?d))"
    by (rule re_sub_head)
  then show ?thesis
    by (cases "re_sub ?d") auto
qed

lemma re_sub_twice: "re_sub (re_sub s) = re_sub s"
  by (induction s rule: re_sub.induct)
    (simp_all add: dropWhile_re_sub underscore_not_allowed)

lemma sbind_Inr: "sbind r f = Inr y \<longleftrightarrow> (\<exists>x. r = Inr x \<and> f x = Inr y)"
  by (cases r) (auto simp: sbind_def)

lemma sanitize_field_Inr:
  "sanitize_field plist k = Inr plist' \<longleftrightarrow>
     (\<exists>d t. plist = PyDict d \<and> map_of d k = Some (PyStr t) \<and>
            plist' = PyDict (AList.update k (PyStr (re_sub t)) d))"
proof (cases plist)
  case (PyDict d)
  show ?thesis
  proof (cases "map_of d k")
    case None
    with PyDict show ?thesis by (simp add: sanitize_field_def sbind_def)
  next
    case (Some v)
    with PyDict show ?thesis
      by (cases v) (auto simp: sanitize_field_def sbind_def)
  qed
qed (simp_all add: sanitize_field_def sbind_def)

text \<open>
  C5. Whatever the input, the substitution returns a string whose characters are in the
  class \<^verbatim>\<open>[A-Za-z0-9.-]\<close> or are the replacement character \<^verbatim>\<open>_\<close>, and it keeps the
  characters of the class, in their order; so what is replaced is what lies outside the
  class (a run of such characters by one underscore, as the concrete strings below show).
  The same holds of a field of the metadata after lines 97 and 98 have sanitized it.
\<close>

theorem sanitized_characters:
  "set (re_sub s) \<subseteq> Collect allowed \<union> {CHR ''_''} \<and>
   filter allowed (re_sub s) = filter allowed s \<and>
   (\<forall>plist k plist'. sanitize_field plist k = Inr plist' \<longrightarrow>
      (\<exists>t. getitem plist' k = Inr (PyStr t) \<and> set t \<subseteq> Collect allowed \<union> {CHR ''_''}))"
proof (intro conjI allI impI)
  show "set (re_sub s) \<subseteq> Collect allowed \<union> {CHR ''_''}"
    using re_sub_chars by auto
  show "filter allowed (re_sub s) = filter allowed s"
    by (rule re_sub_keeps_allowed)
next
  fix plist k plist'
  assume "sanitize_field plist k = Inr plist'"
  then obtain d t where "plist' = PyDict (AList.update k (PyStr (re_sub t)) d)"
    unfolding sanitize_field_Inr by blast
  then have "getitem plist' k = Inr (PyStr (re_sub t))"
    by (simp add: update_conv')
  moreover have "set (re_sub t) \<subseteq> Collect allowed \<union> {CHR ''_''}"
    using re_sub_chars by auto
  ultimately show "\<exists>t. getitem plist' k = Inr (PyStr t) \<and> set t \<subseteq> Collect allowed \<union> {CHR ''_''}"
    by blast
qed

theorem sanitized_characters_witness:
  "re_sub ''My App (1.0)'' = ''My_App_1.0_'' \<and>
   set (re_sub ''My App (1.0)'') \<subseteq> Collect allowed \<union> {CHR ''_''} \<and>
   sanitize_field (PyDict [(''name'', PyStr ''My App'')]) ''name''
     = Inr (PyDict [(''name'', PyStr ''My_App'')]) \<and>
   (\<exists>t. getitem (PyDict [(''name'', PyStr ''My_App'')]) ''name'' = Inr (PyStr t) \<and>
        set t \<subseteq> Collect allowed \<union> {CHR ''_''})"
proof -
  have a: "re_sub ''My App (1.0)'' = ''My_App_1.0_''"
    by (simp add: allowed_def)
  have b: "sanitize_field (PyDict [(''name'', PyStr ''My App'')]) ''name''
             = Inr (PyDict [(''name'', PyStr ''My_App'')])"
    by (simp add: sanitize_field_def sbind_def allowed_def)
  show ?thesis
    using a b sanitized_characters [of "''My App (1.0)''"] by blast
qed

text \<open>
  C6. The substitution is idempotent: applied to its own result it changes nothing.
\<close>

theorem sanitization_idempotent: "re_sub (re_sub s) = re_sub s"
  by (rule re_sub_twice)

subsection \<open>Running the steps\<close>

lemmas exec_defs = then_do_def ret_def raise_def lift_def reading_def emit_def self_output_def
  set_env_def

text \<open>Everything before the registry is quiet.\<close>

lemma locate_artifact_quiet: "locate_artifact s = (r, s') \<Longrightarrow> quiet s s'"
  unfolding locate_artifact_def quiet_def
  by (auto simp: exec_defs path_exists_def split: if_splits sum.splits prod.splits pyval.splits)

lemma make_pkg_info_quiet: "make_pkg_info w s = (r, s') \<Longrightarrow> quiet s s'"
  unfolding make_pkg_info_def quiet_def
  by (auto simp: exec_defs open_wb_def subprocess_call_def readPlist_def writePlist_def
      split: if_splits sum.splits prod.splits pyval.splits option.splits content.splits)

lemma quiet_refl: "quiet s s"
  by (simp add: quiet_def)

lemma quiet_trans:
  assumes "quiet s s1" and "quiet s1 s2"
  shows "quiet s s2"
proof -
  obtain e1 where e1: "trace s1 = trace s @ e1" "\<forall>ev \<in> set e1. \<not> is_call ev"
    using assms(1) unfolding quiet_def by blast
  obtain e2 where e2: "trace s2 = trace s1 @ e2" "\<forall>ev \<in> set e2. \<not> is_call ev"
    using assms(2) unfolding quiet_def by blast
  have "trace s2 = trace s @ (e1 @ e2)"
    using e1 e2 by simp
  moreover have "\<forall>ev \<in> set (e1 @ e2). \<not> is_call ev"
    using e1(2) e2(2) by auto
  moreover have "\<forall>k. k \<noteq> ''package_file'' \<and> k \<noteq> ''pkginfo_file'' \<longrightarrow> env s2 k = env s k"
    using assms unfolding quiet_def by simp
  ultimately show ?thesis
    unfolding quiet_def by blast
qed

lemma quiet_output: "quiet s (s\<lparr>trace := trace s @ [Output m]\<rparr>)"
  by (simp add: quiet_def)

lemma ensure_metadata_quiet: "ensure_metadata w s = (r, s') \<Longrightarrow> quiet s s'"
  unfolding ensure_metadata_def
  by (auto simp: exec_defs path_exists_def quiet_refl quiet_output dest!: make_pkg_info_quiet
      split: if_splits sum.splits prod.splits pyval.splits)

lemma read_metadata_same: "read_metadata s = (r, s') \<Longrightarrow> s' = s"
  unfolding read_metadata_def
  by (auto simp: exec_defs readPlist_def
      split: if_splits sum.splits prod.splits pyval.splits option.splits content.splits)

lemma prepare_quiet: "prepare w s = (r, s') \<Longrightarrow> quiet s s'"
  unfolding prepare_def
  by (auto simp: exec_defs quiet_refl split: if_splits sum.splits prod.splits
      dest!: locate_artifact_quiet ensure_metadata_quiet read_metadata_same
      intro: quiet_trans)

text \<open>What it takes to build the two commands.\<close>

lemma item_Inr: "item e k = Inr v \<longleftrightarrow> e k = Some v"
  by (auto simp: item_def split: option.splits)

lemma py_add_str_left: "py_add (PyStr a) v = Inr r \<longleftrightarrow> (\<exists>b. v = PyStr b \<and> r = PyStr (a @ b))"
  by (cases v) auto

lemma py_add_str_right: "py_add v (PyStr b) = Inr r \<longleftrightarrow> (\<exists>a. v = PyStr a \<and> r = PyStr (a @ b))"
  by (cases v) auto

lemma query_cmd_Inr:
  "query_cmd e n v = Inr cmd \<longleftrightarrow>
     (\<exists>a u na va c k. e ''api_url'' = Some (PyStr a) \<and> e ''unit'' = Some (PyStr u) \<and>
        n = PyStr na \<and> v = PyStr va \<and> e ''CURL_PATH'' = Some c \<and>
        e ''api_key'' = Some (PyStr k) \<and>
        cmd = [c, PyStr ''--header'', PyStr (''X-Api-Key: '' @ k), PyStr ''--url'',
               PyStr (a @ ''/'' @ u @ ''/packages/'' @ na @ ''/'' @ va)])"
  unfolding query_cmd_def
  by (auto simp: sbind_Inr item_Inr py_add_str_left py_add_str_right)

lemma upload_cmd_Inr:
  "upload_cmd e = Inr cmd \<longleftrightarrow>
     (\<exists>a u c k pi pf. e ''api_url'' = Some (PyStr a) \<and> e ''unit'' = Some (PyStr u) \<and>
        e ''CURL_PATH'' = Some c \<and> e ''api_key'' = Some (PyStr k) \<and>
        e ''pkginfo_file'' = Some (PyStr pi) \<and> e ''package_file'' = Some (PyStr pf) \<and>
        cmd = [c, PyStr ''--header'', PyStr (''X-Api-Key: '' @ k),
               PyStr ''-F'', PyStr (''pkginfo_file=@'' @ pi),
               PyStr ''-F'', PyStr (''package_file=@'' @ pf),
               PyStr ''--url'', PyStr (a @ ''/'' @ u @ ''/packages'')])"
  unfolding upload_cmd_def
  by (auto simp: sbind_Inr item_Inr py_add_str_left py_add_str_right)


lemma check_existence_cases [consumes 1, case_names unconfigured not_run garbled malformed present missing]:
  assumes "check_existence w n v s = (r, s')"
  obtains
    (unconfigured) e where "query_cmd (env s) n v = Inl e" and "r = Inr False"
      and "s' = s\<lparr>trace := trace s @ [Output config_hint]\<rparr>"
  | (not_run) e where "r = Inl e" and "s' = s"
  | (garbled) cmd q body where "query_cmd (env s) n v = Inr cmd" and "strs cmd = Some q"
      and "curl w q = Some body" and "json_loads w body = None" and "r = Inl ValueError"
      and "s' = s\<lparr>trace := trace s @ [ExistenceQuery q]\<rparr>"
  | (malformed) cmd q resp e where "query_cmd (env s) n v = Inr cmd" and "strs cmd = Some q"
      and "reply w q = Some resp" and "getitem resp ''exists'' = Inl e" and "r = Inl e"
      and "s' = s\<lparr>trace := trace s @ [ExistenceQuery q]\<rparr>"
  | (present) cmd q resp ex na va where "query_cmd (env s) n v = Inr cmd" and "strs cmd = Some q"
      and "reply w q = Some resp" and "getitem resp ''exists'' = Inr ex" and "truthy ex"
      and "n = PyStr na" and "v = PyStr va" and "r = Inr False"
      and "s' = s\<lparr>trace := trace s @ [ExistenceQuery q,
             Output (PyStr (na @ '' version '' @ va @ '' is already in munkiserver.  Quitting.''))]\<rparr>"
  | (missing) cmd q resp ex where "query_cmd (env s) n v = Inr cmd" and "strs cmd = Some q"
      and "reply w q = Some resp" and "getitem resp ''exists'' = Inr ex" and "\<not> truthy ex"
      and "r = Inr True" and "s' = s\<lparr>trace := trace s @ [ExistenceQuery q]\<rparr>"
proof (cases "query_cmd (env s) n v")
  case (Inl e)
  with assms have "r = Inr False" "s' = s\<lparr>trace := trace s @ [Output config_hint]\<rparr>"
    by (auto simp: check_existence_def exec_defs)
  with Inl show ?thesis by (rule unconfigured)
next
  case (Inr cmd)
  then obtain na va where nv: "n = PyStr na" "v = PyStr va"
    unfolding query_cmd_Inr by blast
  from assms Inr nv show ?thesis
    unfolding check_existence_def popen_read_def loads_def
    by (auto simp: exec_defs reply_def sbind_def
        split: option.splits sum.splits if_splits prod.splits
        intro: not_run garbled malformed present missing)
qed


lemma getitem_Inr: "getitem x k = Inr y \<longleftrightarrow> (\<exists>d. x = PyDict d \<and> map_of d k = Some y)"
  by (cases x) (auto split: option.splits)

lemma send_slack_notification_cases [consumes 1, case_names no_token called]:
  assumes "send_slack_notification w m s = (r, s')"
  obtains
    (no_token) "env s ''slack_api_token'' = None" and "r = Inl KeyError" and "s' = s"
  | (called) tok where "env s ''slack_api_token'' = Some tok"
      and "s' = s\<lparr>trace := trace s @ [Notify tok m]\<rparr>"
  using assms unfolding send_slack_notification_def api_call_def
  by (auto simp: exec_defs item_def getitem_Inr
      split: option.splits sum.splits if_splits prod.splits)

lemma upload_cases [consumes 1, case_names unconfigured not_run garbled malformed failed
    failed_silent succeeded succeeded_crash]:
  assumes "upload w s = (r, s')"
  obtains
    (unconfigured) e where "upload_cmd (env s) = Inl e" and "r = Inr ()"
      and "s' = s\<lparr>trace := trace s @ [Output config_hint]\<rparr>"
  | (not_run) e where "r = Inl e" and "s' = s"
  | (garbled) cmd u body where "upload_cmd (env s) = Inr cmd" and "strs cmd = Some u"
      and "curl w u = Some body" and "json_loads w body = None" and "r = Inl ValueError"
      and "s' = s\<lparr>trace := trace s @ [Upload u]\<rparr>"
  | (malformed) cmd u resp e where "upload_cmd (env s) = Inr cmd" and "strs cmd = Some u"
      and "reply w u = Some resp" and "getitem resp ''type'' = Inl e" and "r = Inl e"
      and "s' = s\<lparr>trace := trace s @ [Upload u]\<rparr>"
  | (failed) cmd u resp t m where "upload_cmd (env s) = Inr cmd" and "strs cmd = Some u"
      and "reply w u = Some resp" and "getitem resp ''type'' = Inr t" and "t \<noteq> PyStr ''success''"
      and "getitem resp ''message'' = Inr (PyStr m)" and "r = Inr ()"
      and "s' = s\<lparr>trace := trace s @ [Upload u, Output (PyStr (''Upload failed: '' @ m))]\<rparr>"
  | (failed_silent) cmd u resp t e where "upload_cmd (env s) = Inr cmd" and "strs cmd = Some u"
      and "reply w u = Some resp" and "getitem resp ''type'' = Inr t" and "t \<noteq> PyStr ''success''"
      and "\<forall>m. getitem resp ''message'' \<noteq> Inr (PyStr m)" and "r = Inl e"
      and "s' = s\<lparr>trace := trace s @ [Upload u]\<rparr>"
  | (succeeded) cmd u resp m url where "upload_cmd (env s) = Inr cmd" and "strs cmd = Some u"
      and "reply w u = Some resp" and "getitem resp ''type'' = Inr (PyStr ''success'')"
      and "getitem resp ''message'' = Inr (PyStr m)"
      and "getitem resp ''edit_url'' = Inr (PyStr url)"
      and "send_slack_notification w (PyStr (notice @ url))
             (s\<lparr>trace := trace s @ [Upload u, Output (PyStr (''Upload succeeded: '' @ m)),
                                      Output (PyStr (''URL: '' @ url))]\<rparr>) = (r, s')"
  | (succeeded_crash) cmd u resp e outs where "upload_cmd (env s) = Inr cmd"
      and "strs cmd = Some u" and "reply w u = Some resp"
      and "getitem resp ''type'' = Inr (PyStr ''success'')"
      and "(\<forall>m. getitem resp ''message'' \<noteq> Inr (PyStr m)) \<or>
           (\<forall>url. getitem resp ''edit_url'' \<noteq> Inr (PyStr url))"
      and "r = Inl e" and "s' = s\<lparr>trace := trace s @ Upload u # outs\<rparr>"
      and "\<forall>ev \<in> set outs. is_output ev"
proof (cases "upload_cmd (env s)")
  case (Inl e)
  with assms have "r = Inr ()" "s' = s\<lparr>trace := trace s @ [Output config_hint]\<rparr>"
    by (auto simp: upload_def exec_defs)
  with Inl show ?thesis by (rule unconfigured)
next
  case (Inr cmd)
  show ?thesis
  proof (cases "strs cmd")
    case None
    with assms Inr have "r = Inl TypeError" "s' = s"
      by (auto simp: upload_def popen_read_def exec_defs)
    then show ?thesis by (rule not_run)
  next
    case (Some u)
    note u = this
    show ?thesis
    proof (cases "curl w u")
      case None
      with assms Inr u have "r = Inl OSError" "s' = s"
        by (auto simp: upload_def popen_read_def exec_defs)
      then show ?thesis by (rule not_run)
    next
      case (Some body)
      note body = this
      show ?thesis
      proof (cases "json_loads w body")
        case None
        with assms Inr u body have "r = Inl ValueError" "s' = s\<lparr>trace := trace s @ [Upload u]\<rparr>"
          by (auto simp: upload_def popen_read_def loads_def exec_defs)
        with Inr u body None show ?thesis by (rule garbled)
      next
        case (Some resp)
        then have rep: "reply w u = Some resp"
          using body by (simp add: reply_def)
        have run: "then_do (lift (getitem resp ''type'')) (\<lambda>t.
              if t = PyStr ''success'' then
                then_do (lift (sbind (getitem resp ''message'')
                           (py_add (PyStr ''Upload succeeded: '')))) (\<lambda>m1.
                then_do (self_output m1) (\<lambda>_.
                then_do (lift (sbind (getitem resp ''edit_url'')
                           (py_add (PyStr ''URL: '')))) (\<lambda>m2.
                then_do (self_output m2) (\<lambda>_.
                then_do (lift (sbind (getitem resp ''edit_url'')
                           (py_add (PyStr notice)))) (\<lambda>m3.
                send_slack_notification w m3)))))
              else
                then_do (lift (sbind (getitem resp ''message'')
                           (py_add (PyStr ''Upload failed: '')))) self_output)
              (s\<lparr>trace := trace s @ [Upload u]\<rparr>) = (r, s')"
          using assms Inr u body Some
          by (simp add: upload_def popen_read_def loads_def exec_defs)
        show ?thesis
        proof (cases "getitem resp ''type''")
          case (Inl e)
          with run have "r = Inl e" "s' = s\<lparr>trace := trace s @ [Upload u]\<rparr>"
            by (auto simp: exec_defs)
          with Inr u rep Inl show ?thesis by (rule malformed)
        next
          case (Inr t)
          note t = this
          show ?thesis
          proof (cases "t = PyStr ''success''")
            case False
            show ?thesis
            proof (cases "\<exists>m. getitem resp ''message'' = Inr (PyStr m)")
              case True
              then obtain m where m: "getitem resp ''message'' = Inr (PyStr m)" by blast
              with run t False have "r = Inr ()"
                "s' = s\<lparr>trace := trace s @ [Upload u, Output (PyStr (''Upload failed: '' @ m))]\<rparr>"
                by (auto simp: exec_defs sbind_def)
              with \<open>upload_cmd (env s) = Inr cmd\<close> u rep t False m show ?thesis
                by (rule failed)
            next
              case no: False
              then have "\<forall>m. getitem resp ''message'' \<noteq> Inr (PyStr m)" by blast
              moreover from run t False no
              obtain e where "r = Inl e" "s' = s\<lparr>trace := trace s @ [Upload u]\<rparr>"
                by (auto simp: exec_defs sbind_def py_add_str_left split: sum.splits)
              ultimately show ?thesis
                using \<open>upload_cmd (env s) = Inr cmd\<close> u rep t False
                by (metis failed_silent)
            qed
          next
            case True
            with t have ty: "getitem resp ''type'' = Inr (PyStr ''success'')" by simp
            show ?thesis
            proof (cases "\<exists>m. getitem resp ''message'' = Inr (PyStr m)")
              case no: False
              then have "\<forall>m. getitem resp ''message'' \<noteq> Inr (PyStr m)" by blast
              moreover from run ty no
              obtain e where "r = Inl e" "s' = s\<lparr>trace := trace s @ Upload u # []\<rparr>"
                by (auto simp: exec_defs sbind_def py_add_str_left split: sum.splits)
              ultimately show ?thesis
                using \<open>upload_cmd (env s) = Inr cmd\<close> u rep ty
                by (intro succeeded_crash [where outs = "[]"]) auto
            next
              case True
              then obtain m where m: "getitem resp ''message'' = Inr (PyStr m)" by blast
              show ?thesis
              proof (cases "\<exists>url. getitem resp ''edit_url'' = Inr (PyStr url)")
                case no: False
                then have "\<forall>url. getitem resp ''edit_url'' \<noteq> Inr (PyStr url)" by blast
                moreover from run ty m no
                obtain e where "r = Inl e"
                  "s' = s\<lparr>trace := trace s @ Upload u # [Output (PyStr (''Upload succeeded: '' @ m))]\<rparr>"
                  by (auto simp: exec_defs sbind_def py_add_str_left split: sum.splits)
                ultimately show ?thesis
                  using \<open>upload_cmd (env s) = Inr cmd\<close> u rep ty
                  by (intro succeeded_crash
                      [where outs = "[Output (PyStr (''Upload succeeded: '' @ m))]"]) auto
              next
                case True
                then obtain url where url: "getitem resp ''edit_url'' = Inr (PyStr url)" by blast
                from run ty m url
                have "send_slack_notification w (PyStr (notice @ url))
                   (s\<lparr>trace := trace s @ [Upload u, Output (PyStr (''Upload succeeded: '' @ m)),
                                      Output (PyStr (''URL: '' @ url))]\<rparr>) = (r, s')"
                  by (simp add: exec_defs sbind_def)
                with \<open>upload_cmd (env s) = Inr cmd\<close> u rep ty m url show ?thesis
                  by (rule succeeded)
              qed
            qed
          qed
        qed
      qed
    qed
  qed
qed

text \<open>The steps before the registry, one by one.\<close>

lemma locate_artifact_run:
  assumes "locate_artifact s = (r, s')"
  shows "fs s' = fs s" and "\<forall>k. k \<noteq> ''package_file'' \<longrightarrow> env s' k = env s k"
    and "\<exists>evs. trace s' = trace s @ evs \<and> (\<forall>ev \<in> set evs. is_output ev)"
  using assms unfolding locate_artifact_def
  by (auto simp: exec_defs path_exists_def split: if_splits sum.splits prod.splits pyval.splits)

lemma make_pkg_info_Inl:
  assumes "make_pkg_info w s = (Inl err, s')"
  shows "\<exists>evs. trace s' = trace s @ evs \<and>
           (\<forall>ev \<in> set evs. \<not> is_call ev \<and> (\<forall>p x. ev \<noteq> WritePlist p x))"
  using assms unfolding make_pkg_info_def
  by (auto simp: exec_defs open_wb_def subprocess_call_def readPlist_def writePlist_def
      split: if_splits sum.splits prod.splits pyval.splits option.splits content.splits)


lemma make_pkg_info_Inr:
  assumes "make_pkg_info w s = (Inr x, s')"
  shows "\<exists>pf argv args parsed plist1 written.
      env s ''package_file'' = Some (PyStr pf) \<and>
      makepkginfo_args (env s) = Inr argv \<and> strs argv = Some args \<and>
      makepkginfo w args = Some (Plist parsed) \<and>
      sanitize_field parsed ''name'' = Inr plist1 \<and>
      sanitize_field plist1 ''version'' = Inr written \<and>
      s' = s\<lparr>env := (env s)(''pkginfo_file'' \<mapsto> PyStr (pf @ ''.plist'')),
                   fs := (fs s)(pf @ ''.plist'' \<mapsto> Plist written),
                   trace := trace s @
                     [Output (PyStr (''No pkginfo file specified.  Creating '' @ pf @ ''.plist'')),
                      RunMakePkgInfo args, WritePlist (pf @ ''.plist'') written]\<rparr>"
proof -
  from assms obtain argv where argv: "makepkginfo_args (env s) = Inr argv"
    unfolding make_pkg_info_def by (auto simp: exec_defs split: sum.splits prod.splits)
  from assms obtain pf where pf: "env s ''package_file'' = Some (PyStr pf)"
    unfolding make_pkg_info_def
    by (auto simp: exec_defs sbind_Inr item_Inr py_add_str_right split: sum.splits prod.splits)
  let ?p = "pf @ ''.plist''"
  let ?s1 = "s\<lparr>env := (env s)(''pkginfo_file'' \<mapsto> PyStr ?p)\<rparr>"
  have rest: "then_do (open_wb w (PyStr ?p)) (\<lambda>_.
     then_do (reading (\<lambda>e. sbind (item e ''pkginfo_file'')
                (py_add (PyStr ''No pkginfo file specified.  Creating '')))) (\<lambda>msg.
     then_do (self_output msg) (\<lambda>_.
     then_do (subprocess_call w argv (PyStr ?p)) (\<lambda>_.
     then_do (readPlist (PyStr ?p)) (\<lambda>plist.
     then_do (lift (sanitize_field plist ''name'')) (\<lambda>plist1.
     then_do (lift (sanitize_field plist1 ''version'')) (\<lambda>plist2.
     writePlist plist2 (PyStr ?p)))))))) ?s1 = (Inr x, s')"
    using assms argv pf unfolding make_pkg_info_def
    by (simp add: exec_defs sbind_def item_def)
  then have wr: "writable w ?p"
    by (auto simp: exec_defs open_wb_def split: if_splits)
  let ?s2 = "s\<lparr>env := (env s)(''pkginfo_file'' \<mapsto> PyStr ?p), fs := (fs s)(?p \<mapsto> Other),
      trace := trace s @ [Output (PyStr (''No pkginfo file specified.  Creating '' @ ?p))]\<rparr>"
  have rest2: "then_do (subprocess_call w argv (PyStr ?p)) (\<lambda>_.
     then_do (readPlist (PyStr ?p)) (\<lambda>plist.
     then_do (lift (sanitize_field plist ''name'')) (\<lambda>plist1.
     then_do (lift (sanitize_field plist1 ''version'')) (\<lambda>plist2.
     writePlist plist2 (PyStr ?p))))) ?s2 = (Inr x, s')"
    using rest wr by (simp add: exec_defs open_wb_def sbind_def item_def)
  then obtain args where args: "strs argv = Some args"
    by (auto simp: exec_defs subprocess_call_def split: option.splits)
  with rest2 obtain c where c: "makepkginfo w args = Some c"
    by (auto simp: exec_defs subprocess_call_def split: option.splits)
  let ?s3 = "s\<lparr>env := (env s)(''pkginfo_file'' \<mapsto> PyStr ?p), fs := (fs s)(?p \<mapsto> c),
      trace := trace s @ [Output (PyStr (''No pkginfo file specified.  Creating '' @ ?p)),
                          RunMakePkgInfo args]\<rparr>"
  have rest3: "then_do (readPlist (PyStr ?p)) (\<lambda>plist.
     then_do (lift (sanitize_field plist ''name'')) (\<lambda>plist1.
     then_do (lift (sanitize_field plist1 ''version'')) (\<lambda>plist2.
     writePlist plist2 (PyStr ?p)))) ?s3 = (Inr x, s')"
    using rest2 args c by (simp add: exec_defs subprocess_call_def)
  then obtain parsed where parsed: "c = Plist parsed"
    by (cases c) (auto simp: exec_defs readPlist_def)
  have rest4: "then_do (lift (sanitize_field parsed ''name'')) (\<lambda>plist1.
     then_do (lift (sanitize_field plist1 ''version'')) (\<lambda>plist2.
     writePlist plist2 (PyStr ?p))) ?s3 = (Inr x, s')"
    using rest3 parsed by (simp add: exec_defs readPlist_def)
  then obtain plist1 where p1: "sanitize_field parsed ''name'' = Inr plist1"
    by (cases "sanitize_field parsed ''name''") (auto simp: exec_defs)
  with rest4 obtain written where p2: "sanitize_field plist1 ''version'' = Inr written"
    by (cases "sanitize_field plist1 ''version''") (auto simp: exec_defs)
  have "s' = s\<lparr>env := (env s)(''pkginfo_file'' \<mapsto> PyStr ?p),
                   fs := (fs s)(?p \<mapsto> Plist written),
                   trace := trace s @
                     [Output (PyStr (''No pkginfo file specified.  Creating '' @ ?p)),
                      RunMakePkgInfo args, WritePlist ?p written]\<rparr>"
    using rest4 p1 p2 by (simp add: exec_defs writePlist_def)
  with pf argv args c parsed p1 p2 show ?thesis
    by blast
qed

lemma ensure_metadata_supplied:
  assumes "env s ''pkginfo_file'' = Some path" and "ensure_metadata w s = (r, s')"
  shows "fs s' = fs s" and "env s' = env s"
    and "\<exists>evs. trace s' = trace s @ evs \<and> (\<forall>ev \<in> set evs. is_output ev)"
    and "r = Inr True \<longrightarrow> (\<exists>p. path = PyStr p \<and> fs s p \<noteq> None)"
  using assms unfolding ensure_metadata_def
  by (auto simp: exec_defs path_exists_def item_def
      split: if_splits sum.splits prod.splits pyval.splits)

lemma ensure_metadata_generated:
  assumes "env s ''pkginfo_file'' = None" and "ensure_metadata w s = (r, s')"
  shows "(\<exists>err. r = Inl err \<and> make_pkg_info w s = (Inl err, s')) \<or>
         (r = Inr True \<and> make_pkg_info w s = (Inr (), s'))"
  using assms unfolding ensure_metadata_def
  by (auto simp: exec_defs split: sum.splits prod.splits)

lemma read_metadata_Inr:
  assumes "read_metadata s = (Inr (n, v), s')"
  shows "\<exists>p d. env s ''pkginfo_file'' = Some (PyStr p) \<and> fs s p = Some (Plist (PyDict d)) \<and>
           map_of d ''name'' = Some n \<and> map_of d ''version'' = Some v"
  using assms unfolding read_metadata_def
  by (auto simp: exec_defs readPlist_def item_def getitem_Inr
      split: if_splits sum.splits prod.splits pyval.splits option.splits content.splits)

lemma registry_cases [consumes 1, case_names halted continued]:
  assumes "registry w n v s = (r, s')"
  obtains
    (halted) r0 where "check_existence w n v s = (r0, s')" and "r0 \<noteq> Inr True"
      and "r = (case r0 of Inl err \<Rightarrow> Inl err | Inr _ \<Rightarrow> Inr ())"
  | (continued) s1 where "check_existence w n v s = (Inr True, s1)" and "upload w s1 = (r, s')"
  using assms unfolding registry_def
  by (auto simp: exec_defs split: sum.splits prod.splits if_splits)

lemma process_cases [case_names stopped raised reached]:
  obtains
    (stopped) s1 where "prepare w (initial w e f) = (Inr None, s1)"
      and "process w e f = (Inr (), s1)"
  | (raised) err s1 where "prepare w (initial w e f) = (Inl err, s1)"
      and "process w e f = (Inl err, s1)"
  | (reached) n v s1 where "prepare w (initial w e f) = (Inr (Some (n, v)), s1)"
      and "process w e f = registry w n v s1"
proof (cases "prepare w (initial w e f)")
  case (Pair r0 s1)
  show ?thesis
  proof (cases r0)
    case (Inl err)
    with Pair have "process w e f = (Inl err, s1)"
      by (simp add: process_def main_def exec_defs)
    with Pair Inl show ?thesis by (auto intro: raised)
  next
    case (Inr m)
    show ?thesis
    proof (cases m)
      case None
      with Pair Inr have "process w e f = (Inr (), s1)"
        by (simp add: process_def main_def exec_defs)
      with Pair Inr None show ?thesis by (auto intro: stopped)
    next
      case (Some nv)
      obtain n v where nv: "nv = (n, v)" by (cases nv)
      with Pair Inr Some have "process w e f = registry w n v s1"
        by (simp add: process_def main_def exec_defs)
      with Pair Inr Some nv show ?thesis by (auto intro: reached)
    qed
  qed
qed

text \<open>Reading the answers of the registry, and the run up to the registry.\<close>

lemma field_Some: "field (Some resp) k = Some x \<longleftrightarrow> getitem resp k = Inr x"
  by (cases resp) (auto split: option.splits)

lemma field_reply_None: "reply w q = None \<Longrightarrow> field (reply w q) k = None"
  by simp

lemma reply_garbled: "curl w q = Some body \<Longrightarrow> json_loads w body = None \<Longrightarrow> reply w q = None"
  by (simp add: reply_def)

lemma quiet_initial:
  assumes "prepare w (initial w e f) = (r, s1)"
  shows "\<forall>ev \<in> set (trace s1). \<not> is_call ev"
    and "\<forall>k. k \<noteq> ''package_file'' \<and> k \<noteq> ''pkginfo_file'' \<longrightarrow>
           env s1 k = apply_defaults (os_environ w) e k"
  using prepare_quiet [OF assms] by (auto simp: quiet_def initial_def)

lemma not_call_simps:
  assumes "\<forall>ev \<in> set evs. \<not> is_call ev"
  shows "ExistenceQuery q \<notin> set evs" and "Upload u \<notin> set evs" and "Notify t m \<notin> set evs"
  using assms by auto

text \<open>Every way the two calls of the registry can go, with the events each way appends.\<close>

lemma registry_run_cases [consumes 2, case_names unconfigured query_not_run query_garbled
    query_malformed present upload_unconfigured upload_not_run upload_garbled upload_malformed
    upload_failed upload_failed_silent upload_succeeded upload_succeeded_crash]:
  assumes "registry w n v s = (r, s')" and "env s ''slack_api_token'' \<noteq> None"
  obtains
    (unconfigured) err where "query_cmd (env s) n v = Inl err" and "r = Inr ()"
      and "trace s' = trace s @ [Output config_hint]"
  | (query_not_run) err where "r = Inl err" and "trace s' = trace s"
  | (query_garbled) cmd q body where "query_cmd (env s) n v = Inr cmd" and "strs cmd = Some q"
      and "curl w q = Some body" and "json_loads w body = None" and "r = Inl ValueError"
      and "trace s' = trace s @ [ExistenceQuery q]"
  | (query_malformed) cmd q resp err where "query_cmd (env s) n v = Inr cmd"
      and "strs cmd = Some q" and "reply w q = Some resp"
      and "getitem resp ''exists'' = Inl err" and "r = Inl err"
      and "trace s' = trace s @ [ExistenceQuery q]"
  | (present) q ex na va where "asked w (env s) n v q ex" and "truthy ex"
      and "n = PyStr na" and "v = PyStr va" and "r = Inr ()"
      and "trace s' = trace s @ [ExistenceQuery q,
             Output (PyStr (na @ '' version '' @ va @ '' is already in munkiserver.  Quitting.''))]"
  | (upload_unconfigured) q ex err where "asked w (env s) n v q ex" and "\<not> truthy ex"
      and "upload_cmd (env s) = Inl err" and "r = Inr ()"
      and "trace s' = trace s @ [ExistenceQuery q, Output config_hint]"
  | (upload_not_run) q ex err where "asked w (env s) n v q ex" and "\<not> truthy ex"
      and "r = Inl err" and "trace s' = trace s @ [ExistenceQuery q]"
  | (upload_garbled) q ex cmd u body where "asked w (env s) n v q ex" and "\<not> truthy ex"
      and "upload_cmd (env s) = Inr cmd" and "strs cmd = Some u"
      and "curl w u = Some body" and "json_loads w body = None" and "r = Inl ValueError"
      and "trace s' = trace s @ [ExistenceQuery q, Upload u]"
  | (upload_malformed) q ex u resp err where "asked w (env s) n v q ex" and "\<not> truthy ex"
      and "sent w (env s) u resp" and "getitem resp ''type'' = Inl err" and "r = Inl err"
      and "trace s' = trace s @ [ExistenceQuery q, Upload u]"
  | (upload_failed) q ex u resp t m where "asked w (env s) n v q ex" and "\<not> truthy ex"
      and "sent w (env s) u resp" and "getitem resp ''type'' = Inr t"
      and "t \<noteq> PyStr ''success''" and "getitem resp ''message'' = Inr (PyStr m)"
      and "r = Inr ()"
      and "trace s' = trace s @ [ExistenceQuery q, Upload u,
             Output (PyStr (''Upload failed: '' @ m))]"
  | (upload_failed_silent) q ex u resp t err where "asked w (env s) n v q ex"
      and "\<not> truthy ex" and "sent w (env s) u resp" and "getitem resp ''type'' = Inr t"
      and "t \<noteq> PyStr ''success''" and "\<forall>m. getitem resp ''message'' \<noteq> Inr (PyStr m)"
      and "r = Inl err" and "trace s' = trace s @ [ExistenceQuery q, Upload u]"
  | (upload_succeeded) q ex u resp m url tok where "asked w (env s) n v q ex"
      and "\<not> truthy ex" and "sent w (env s) u resp"
      and "getitem resp ''type'' = Inr (PyStr ''success'')"
      and "getitem resp ''message'' = Inr (PyStr m)"
      and "getitem resp ''edit_url'' = Inr (PyStr url)"
      and "env s ''slack_api_token'' = Some tok"
      and "trace s' = trace s @ [ExistenceQuery q, Upload u,
             Output (PyStr (''Upload succeeded: '' @ m)), Output (PyStr (''URL: '' @ url)),
             Notify tok (PyStr (notice @ url))]"
  | (upload_succeeded_crash) q ex u resp err outs where "asked w (env s) n v q ex"
      and "\<not> truthy ex" and "sent w (env s) u resp"
      and "getitem resp ''type'' = Inr (PyStr ''success'')"
      and "(\<forall>m. getitem resp ''message'' \<noteq> Inr (PyStr m)) \<or>
           (\<forall>url. getitem resp ''edit_url'' \<noteq> Inr (PyStr url))"
      and "r = Inl err" and "trace s' = trace s @ ExistenceQuery q # Upload u # outs"
      and "\<forall>ev \<in> set outs. is_output ev"
  using assms(1)
proof (cases rule: registry_cases)
  case (halted r0)
  from halted(1) show ?thesis
  proof (cases rule: check_existence_cases)
    case (unconfigured err)
    with halted(3) show ?thesis by (intro that(1) [of err]) auto
  next
    case (not_run err)
    with halted(3) show ?thesis by (intro that(2) [of err]) auto
  next
    case (garbled cmd q body)
    with halted(3) show ?thesis by (intro that(3) [of cmd q body]) auto
  next
    case (malformed cmd q resp err)
    with halted(3) show ?thesis by (intro that(4) [of cmd q resp err]) auto
  next
    case (present cmd q resp ex na va)
    with halted(3) show ?thesis
      by (intro that(5) [of q ex na va]) (auto simp: asked_def)
  next
    case (missing cmd q resp ex)
    with halted(2) show ?thesis by simp
  qed
next
  case (continued s2)
  from continued(1) obtain q ex where ask: "asked w (env s) n v q ex" and ex: "\<not> truthy ex"
    and s2: "s2 = s\<lparr>trace := trace s @ [ExistenceQuery q]\<rparr>"
    by (cases rule: check_existence_cases) (auto simp: asked_def)
  from continued(2) show ?thesis
  proof (cases rule: upload_cases)
    case (unconfigured err)
    with ask ex s2 show ?thesis by (intro that(6) [of q ex err]) auto
  next
    case (not_run err)
    with ask ex s2 show ?thesis by (intro that(7) [of q ex err]) auto
  next
    case (garbled cmd u body)
    with ask ex s2 show ?thesis by (intro that(8) [of q ex cmd u body]) auto
  next
    case (malformed cmd u resp err)
    with ask ex s2 show ?thesis
      by (intro that(9) [of q ex u resp err]) (auto simp: sent_def)
  next
    case (failed cmd u resp t m)
    with ask ex s2 show ?thesis
      by (intro that(10) [of q ex u resp t m]) (auto simp: sent_def)
  next
    case (failed_silent cmd u resp t err)
    with ask ex s2 show ?thesis
      by (intro that(11) [of q ex u resp t err]) (auto simp: sent_def)
  next
    case (succeeded cmd u resp m url)
    from succeeded(7) assms(2) s2 obtain tok where "env s ''slack_api_token'' = Some tok"
      and "trace s' = trace s @ [ExistenceQuery q, Upload u,
             Output (PyStr (''Upload succeeded: '' @ m)), Output (PyStr (''URL: '' @ url)),
             Notify tok (PyStr (notice @ url))]"
      by (cases rule: send_slack_notification_cases) auto
    with ask ex s2 succeeded show ?thesis
      by (intro that(12) [of q ex u resp m url tok]) (auto simp: sent_def)
  next
    case (succeeded_crash cmd u resp err outs)
    with ask ex s2 show ?thesis
      by (intro that(13) [of q ex u resp err outs]) (auto simp: sent_def)
  qed
qed

text \<open>A run either stops before the registry, without a call, or reaches it.\<close>

lemma token_default: "apply_defaults os e ''slack_api_token'' \<noteq> None"
  by (simp add: apply_defaults_def input_defaults_def split: option.splits)

lemma flow_cases [case_names early reached]:
  obtains
    (early) s1 where "process w e f = (outcome w e f, s1)" and "events w e f = trace s1"
      and "\<forall>ev \<in> set (events w e f). \<not> is_call ev"
      and "\<forall>n v. prepare w (initial w e f) \<noteq> (Inr (Some (n, v)), s1)"
      and "\<exists>r. prepare w (initial w e f) = (r, s1)"
  | (reached) n v s1 r s' where "prepare w (initial w e f) = (Inr (Some (n, v)), s1)"
      and "registry w n v s1 = (r, s')" and "events w e f = trace s'"
      and "outcome w e f = r" and "process w e f = (r, s')"
      and "\<forall>ev \<in> set (trace s1). \<not> is_call ev"
      and "env s1 ''slack_api_token'' \<noteq> None"
proof (cases w e f rule: process_cases)
  case (stopped s1)
  then show ?thesis
    using quiet_initial(1) [OF stopped(1)]
    by (intro that(1) [of s1]) (auto simp: events_def outcome_def)
next
  case (raised err s1)
  then show ?thesis
    using quiet_initial(1) [OF raised(1)]
    by (intro that(1) [of s1]) (auto simp: events_def outcome_def)
next
  case prep: (reached n v s1)
  obtain r s' where run: "registry w n v s1 = (r, s')"
    by (cases "registry w n v s1")
  have "env s1 ''slack_api_token'' \<noteq> None"
    using quiet_initial(2) [OF prep(1)] token_default by simp
  with prep run show ?thesis
    using quiet_initial(1) [OF prep(1)]
    by (intro that(2) [of n v s1 r s']) (auto simp: events_def outcome_def)
qed

lemma no_notify: "\<forall>ev \<in> set evs. \<not> is_call ev \<Longrightarrow> filter is_notify evs = []"
  by (induction evs) (auto elim: is_notify.elims)

lemma sent_reply: "sent w env0 u resp \<Longrightarrow> reply w u = Some resp"
  by (auto simp: sent_def)

text \<open>The registry step leaves the disk and the environment alone.\<close>

lemma registry_frame:
  assumes "registry w n v s = (r, s')"
  shows "fs s' = fs s \<and> env s' = env s \<and>
    (\<exists>evs. trace s' = trace s @ evs \<and> (\<forall>ev \<in> set evs. is_output ev \<or> is_call ev))"
proof -
  have ce: "\<And>r0 s2. check_existence w n v s = (r0, s2) \<Longrightarrow>
      fs s2 = fs s \<and> env s2 = env s \<and>
      (\<exists>evs. trace s2 = trace s @ evs \<and> (\<forall>ev \<in> set evs. is_output ev \<or> is_call ev))"
    by (erule check_existence_cases) auto
  have sl: "\<And>m s2 r2 s3. send_slack_notification w m s2 = (r2, s3) \<Longrightarrow>
      fs s3 = fs s2 \<and> env s3 = env s2 \<and>
      (\<exists>evs. trace s3 = trace s2 @ evs \<and> (\<forall>ev \<in> set evs. is_output ev \<or> is_call ev))"
    by (erule send_slack_notification_cases) auto
  have up: "\<And>s2 r2 s3. upload w s2 = (r2, s3) \<Longrightarrow>
      fs s3 = fs s2 \<and> env s3 = env s2 \<and>
      (\<exists>evs. trace s3 = trace s2 @ evs \<and> (\<forall>ev \<in> set evs. is_output ev \<or> is_call ev))"
  proof -
    fix s2 r2 s3
    assume "upload w s2 = (r2, s3)"
    then show "fs s3 = fs s2 \<and> env s3 = env s2 \<and>
      (\<exists>evs. trace s3 = trace s2 @ evs \<and> (\<forall>ev \<in> set evs. is_output ev \<or> is_call ev))"
    proof (cases rule: upload_cases)
      case (succeeded cmd u resp m url)
      from sl [OF succeeded(7)] show ?thesis by auto
    next
      case (succeeded_crash cmd u resp err outs)
      then show ?thesis by (auto simp: config_hint_def)
    qed auto
  qed
  from assms show ?thesis
  proof (cases rule: registry_cases)
    case (halted r0)
    from ce [OF halted(1)] show ?thesis .
  next
    case (continued s1)
    from ce [OF continued(1)] obtain e1 where e1: "trace s1 = trace s @ e1"
      "\<forall>ev \<in> set e1. is_output ev \<or> is_call ev" by blast
    from up [OF continued(2)] obtain e2 where e2: "trace s' = trace s1 @ e2"
      "\<forall>ev \<in> set e2. is_output ev \<or> is_call ev" by blast
    have "trace s' = trace s @ (e1 @ e2)" using e1 e2 by simp
    moreover have "\<forall>ev \<in> set (e1 @ e2). is_output ev \<or> is_call ev"
      using e1(2) e2(2) by auto
    ultimately have "\<exists>evs. trace s' = trace s @ evs \<and> (\<forall>ev \<in> set evs. is_output ev \<or> is_call ev)"
      by blast
    with ce [OF continued(1)] up [OF continued(2)] show ?thesis by simp
  qed
qed

text \<open>What the metadata step does to the record and to the files.\<close>

lemma sanitized_frame:
  assumes "sanitize_field parsed ''name'' = Inr plist1"
    and "sanitize_field plist1 ''version'' = Inr written"
  shows "(\<forall>k. k \<noteq> ''name'' \<and> k \<noteq> ''version'' \<longrightarrow> getitem written k = getitem parsed k) \<and>
         (\<exists>n v. getitem parsed ''name'' = Inr (PyStr n) \<and>
                getitem parsed ''version'' = Inr (PyStr v) \<and>
                getitem written ''name'' = Inr (PyStr (re_sub n)) \<and>
                getitem written ''version'' = Inr (PyStr (re_sub v)))"
proof -
  from assms(1) obtain d n where d: "parsed = PyDict d" "map_of d ''name'' = Some (PyStr n)"
    "plist1 = PyDict (AList.update ''name'' (PyStr (re_sub n)) d)"
    unfolding sanitize_field_Inr by blast
  from assms(2) d(3) obtain v where
    v: "map_of (AList.update ''name'' (PyStr (re_sub n)) d) ''version'' = Some (PyStr v)"
    "written = PyDict (AList.update ''version'' (PyStr (re_sub v))
                 (AList.update ''name'' (PyStr (re_sub n)) d))"
    unfolding sanitize_field_Inr by auto
  from v(1) have v': "map_of d ''version'' = Some (PyStr v)"
    by (simp add: update_conv')
  show ?thesis
    using d v(2) v' by (auto simp: update_conv')
qed

lemma prepare_supplied:
  assumes "env s ''pkginfo_file'' = Some path" and "prepare w s = (r, s1)"
  shows "fs s1 = fs s \<and> env s1 ''pkginfo_file'' = Some path \<and>
    (\<exists>evs. trace s1 = trace s @ evs \<and> (\<forall>ev \<in> set evs. is_output ev)) \<and>
    (\<forall>n v. r = Inr (Some (n, v)) \<longrightarrow>
       (\<exists>p d. path = PyStr p \<and> fs s p = Some (Plist (PyDict d)) \<and>
              map_of d ''name'' = Some n \<and> map_of d ''version'' = Some v))"
proof -
  obtain r0 s0 where loc: "locate_artifact s = (r0, s0)"
    by (cases "locate_artifact s")
  note l = locate_artifact_run [OF loc]
  from l(3) obtain e0 where e0: "trace s0 = trace s @ e0" "\<forall>ev \<in> set e0. is_output ev"
    by blast
  have pi0: "env s0 ''pkginfo_file'' = Some path"
    using l(2) assms(1) by simp
  show ?thesis
  proof (cases "r0 = Inr True")
    case False
    with loc assms(2) have "s1 = s0" "\<forall>n v. r \<noteq> Inr (Some (n, v))"
      by (auto simp: prepare_def exec_defs split: sum.splits if_splits)
    with l(1) pi0 e0 show ?thesis by auto
  next
    case True
    obtain r1 s2 where ens: "ensure_metadata w s0 = (r1, s2)"
      by (cases "ensure_metadata w s0")
    note m = ensure_metadata_supplied [OF pi0 ens]
    from m(3) obtain e1 where e1: "trace s2 = trace s0 @ e1" "\<forall>ev \<in> set e1. is_output ev"
      by blast
    have tr: "trace s2 = trace s @ (e0 @ e1)" "\<forall>ev \<in> set (e0 @ e1). is_output ev"
      using e0 e1 by auto
    show ?thesis
    proof (cases "r1 = Inr True")
      case False
      with True loc ens assms(2) have "s1 = s2" "\<forall>n v. r \<noteq> Inr (Some (n, v))"
        by (auto simp: prepare_def exec_defs split: sum.splits if_splits)
      with l(1) m(1,2) pi0 tr show ?thesis by (metis (no_types))
    next
      case r1: True
      obtain r2 s3 where rd: "read_metadata s2 = (r2, s3)"
        by (cases "read_metadata s2")
      then have s3: "s3 = s2" by (rule read_metadata_same)
      from True r1 loc ens rd assms(2) have s1: "s1 = s2"
        and r: "\<forall>n v. r = Inr (Some (n, v)) \<longrightarrow> r2 = Inr (n, v)"
        using s3 by (auto simp: prepare_def exec_defs split: sum.splits if_splits)
      have "\<exists>p d. path = PyStr p \<and> fs s p = Some (Plist (PyDict d)) \<and>
              map_of d ''name'' = Some n \<and> map_of d ''version'' = Some v"
        if "r = Inr (Some (n, v))" for n v
      proof -
        from that r rd have "read_metadata s2 = (Inr (n, v), s3)" by simp
        from read_metadata_Inr [OF this] m(1,2) pi0 l(1) show ?thesis by auto
      qed
      with s1 l(1) m(1,2) pi0 tr show ?thesis by (metis (no_types))
    qed
  qed
qed

lemma prepare_state:
  assumes "prepare w s = (r, s1)" and "locate_artifact s = (r0, s0)"
  shows "(r0 \<noteq> Inr True \<and> s1 = s0) \<or> (r0 = Inr True \<and> (\<exists>r1. ensure_metadata w s0 = (r1, s1)))"
proof (cases "r0 = Inr True")
  case False
  with assms show ?thesis
    by (auto simp: prepare_def exec_defs split: sum.splits if_splits)
next
  case True
  obtain r1 s2 where ens: "ensure_metadata w s0 = (r1, s2)"
    by (cases "ensure_metadata w s0")
  obtain r2 s3 where rd: "read_metadata s2 = (r2, s3)"
    by (cases "read_metadata s2")
  then have "s3 = s2" by (rule read_metadata_same)
  with True assms ens rd have "s1 = s2"
    by (auto simp: prepare_def exec_defs split: sum.splits if_splits)
  with True ens show ?thesis by blast
qed

lemma prepare_written:
  assumes "prepare w s = (r, s1)"
  shows "\<exists>evs. trace s1 = trace s @ evs \<and>
    (\<forall>p x. WritePlist p x \<in> set evs \<longrightarrow>
       (\<exists>args parsed plist1. RunMakePkgInfo args \<in> set evs \<and>
          makepkginfo w args = Some (Plist parsed) \<and>
          sanitize_field parsed ''name'' = Inr plist1 \<and>
          sanitize_field plist1 ''version'' = Inr x \<and>
          fs s1 p = Some (Plist x)))"
proof -
  obtain r0 s0 where loc: "locate_artifact s = (r0, s0)"
    by (cases "locate_artifact s")
  from locate_artifact_run(3) [OF loc]
  obtain e0 where e0: "trace s0 = trace s @ e0" "\<forall>ev \<in> set e0. is_output ev"
    by blast
  have no0: "\<And>p x. WritePlist p x \<notin> set e0"
    using e0(2) by auto
  from prepare_state [OF assms loc] show ?thesis
  proof
    assume "r0 \<noteq> Inr True \<and> s1 = s0"
    with e0 no0 show ?thesis by auto
  next
    assume "r0 = Inr True \<and> (\<exists>r1. ensure_metadata w s0 = (r1, s1))"
    then obtain r1 where ens: "ensure_metadata w s0 = (r1, s1)" by blast
    show ?thesis
    proof (cases "env s0 ''pkginfo_file''")
      case (Some path)
      from ensure_metadata_supplied(3) [OF Some ens]
      obtain e1 where e1: "trace s1 = trace s0 @ e1" "\<forall>ev \<in> set e1. is_output ev"
        by blast
      have "trace s1 = trace s @ (e0 @ e1)" using e0 e1 by simp
      moreover have "\<And>p x. WritePlist p x \<notin> set (e0 @ e1)"
        using e0(2) e1(2) by auto
      ultimately show ?thesis by blast
    next
      case None
      from ensure_metadata_generated [OF None ens] show ?thesis
      proof
        assume "\<exists>err. r1 = Inl err \<and> make_pkg_info w s0 = (Inl err, s1)"
        then obtain err where "make_pkg_info w s0 = (Inl err, s1)" by blast
        from make_pkg_info_Inl [OF this]
        obtain e1 where e1: "trace s1 = trace s0 @ e1"
          "\<forall>ev \<in> set e1. \<not> is_call ev \<and> (\<forall>p x. ev \<noteq> WritePlist p x)"
          by blast
        have "trace s1 = trace s @ (e0 @ e1)" using e0 e1 by simp
        moreover have "\<And>p x. WritePlist p x \<notin> set (e0 @ e1)"
          using no0 e1(2) by auto
        ultimately show ?thesis by blast
      next
        assume "r1 = Inr True \<and> make_pkg_info w s0 = (Inr (), s1)"
        then have "make_pkg_info w s0 = (Inr (), s1)" by simp
        from make_pkg_info_Inr [OF this]
        obtain pf argv args parsed plist1 written where g:
          "makepkginfo w args = Some (Plist parsed)"
          "sanitize_field parsed ''name'' = Inr plist1"
          "sanitize_field plist1 ''version'' = Inr written"
          "s1 = s0\<lparr>env := (env s0)(''pkginfo_file'' \<mapsto> PyStr (pf @ ''.plist'')),
                   fs := (fs s0)(pf @ ''.plist'' \<mapsto> Plist written),
                   trace := trace s0 @
                     [Output (PyStr (''No pkginfo file specified.  Creating '' @ pf @ ''.plist'')),
                      RunMakePkgInfo args, WritePlist (pf @ ''.plist'') written]\<rparr>"
          by blast
        let ?e1 = "[Output (PyStr (''No pkginfo file specified.  Creating '' @ pf @ ''.plist'')),
                      RunMakePkgInfo args, WritePlist (pf @ ''.plist'') written]"
        have "trace s1 = trace s @ (e0 @ ?e1)" using e0 g(4) by simp
        moreover have "\<forall>p x. WritePlist p x \<in> set (e0 @ ?e1) \<longrightarrow>
          (\<exists>args parsed plist1. RunMakePkgInfo args \<in> set (e0 @ ?e1) \<and>
             makepkginfo w args = Some (Plist parsed) \<and>
             sanitize_field parsed ''name'' = Inr plist1 \<and>
             sanitize_field plist1 ''version'' = Inr x \<and>
             fs s1 p = Some (Plist x))"
          using no0 g by auto
        ultimately show ?thesis by blast
      qed
    qed
  qed
qed


lemma flow_split:
  "\<exists>s1 e2 r. events w e f = trace s1 @ e2 \<and> fs (snd (process w e f)) = fs s1 \<and>
     (\<forall>ev \<in> set e2. is_output ev \<or> is_call ev) \<and> prepare w (initial w e f) = (r, s1)"
proof (cases w e f rule: flow_cases)
  case (early s1)
  from early(5) obtain r where pr: "prepare w (initial w e f) = (r, s1)"
    by blast
  have "events w e f = trace s1 @ []" "fs (snd (process w e f)) = fs s1"
    using early(1,2) by simp_all
  with pr show ?thesis
    by (intro exI [of _ s1] exI [of _ "[]"] conjI exI [of _ r]) simp_all
next
  case (reached n v s1 r s')
  from registry_frame [OF reached(2)] obtain e2 where e2: "fs s' = fs s1"
    "trace s' = trace s1 @ e2" "\<forall>ev \<in> set e2. is_output ev \<or> is_call ev"
    by blast
  have "events w e f = trace s1 @ e2" "fs (snd (process w e f)) = fs s1"
    using reached(3,5) e2(1,2) by simp_all
  with e2(3) reached(1) show ?thesis
    by (intro exI [of _ s1] exI [of _ e2] conjI exI [of _ "Inr (Some (n, v))"]) simp_all
qed

text \<open>What the commands of the two calls hold.\<close>

lemma strs_five:
  "strs [c, PyStr h1, PyStr h2, PyStr h3, PyStr x] = Some q \<Longrightarrow> last q = x"
  by (cases c) auto

lemma query_last:
  assumes "query_cmd env0 n v = Inr cmd" and "strs cmd = Some q"
  shows "\<exists>a u na va. env0 ''api_url'' = Some (PyStr a) \<and> env0 ''unit'' = Some (PyStr u) \<and>
           n = PyStr na \<and> v = PyStr va \<and>
           last q = a @ ''/'' @ u @ ''/packages/'' @ na @ ''/'' @ va"
proof -
  from assms(1) obtain a u na va c k where h: "env0 ''api_url'' = Some (PyStr a)"
    "env0 ''unit'' = Some (PyStr u)" "n = PyStr na" "v = PyStr va"
    "cmd = [c, PyStr ''--header'', PyStr (''X-Api-Key: '' @ k), PyStr ''--url'',
               PyStr (a @ ''/'' @ u @ ''/packages/'' @ na @ ''/'' @ va)]"
    unfolding query_cmd_Inr by blast
  from assms(2) h(5) have "last q = a @ ''/'' @ u @ ''/packages/'' @ na @ ''/'' @ va"
    by (auto dest: strs_five)
  with h(1-4) show ?thesis by blast
qed

lemma strs_nine:
  "strs [c, PyStr h1, PyStr h2, PyStr h3, PyStr x, PyStr h4, PyStr h5, PyStr h6, PyStr h7] = Some u
     \<Longrightarrow> x \<in> set u"
  by (cases c) auto

lemma upload_has_file:
  assumes "upload_cmd env0 = Inr cmd" and "strs cmd = Some u"
  shows "\<exists>p. env0 ''pkginfo_file'' = Some (PyStr p) \<and> ''pkginfo_file=@'' @ p \<in> set u"
proof -
  from assms(1) obtain a un c k p pf where h: "env0 ''pkginfo_file'' = Some (PyStr p)"
    "cmd = [c, PyStr ''--header'', PyStr (''X-Api-Key: '' @ k),
               PyStr ''-F'', PyStr (''pkginfo_file=@'' @ p),
               PyStr ''-F'', PyStr (''package_file=@'' @ pf),
               PyStr ''--url'', PyStr (a @ ''/'' @ un @ ''/packages'')]"
    unfolding upload_cmd_Inr by blast
  from assms(2) h(2) have "''pkginfo_file=@'' @ p \<in> set u"
    by (auto dest: strs_nine)
  with h(1) show ?thesis by blast
qed

lemma registry_queries:
  assumes "registry w n v s = (r, s')" and "env s ''slack_api_token'' \<noteq> None"
    and "\<forall>ev \<in> set (trace s). \<not> is_call ev" and "ExistenceQuery q \<in> set (trace s')"
  shows "\<exists>cmd. query_cmd (env s) n v = Inr cmd \<and> strs cmd = Some q"
  using assms(1,2)
proof (cases rule: registry_run_cases)
  case (unconfigured err)
  with assms(3,4) show ?thesis by auto
next
  case (query_not_run err)
  with assms(3,4) show ?thesis by auto
next
  case (query_garbled cmd q' body)
  with assms(3,4) show ?thesis by auto
next
  case (query_malformed cmd q' resp err)
  with assms(3,4) show ?thesis by auto
next
  case (present q' ex na va)
  with assms(3,4) have "q' = q" by auto
  with present(1) show ?thesis by (auto simp: asked_def)
next
  case (upload_unconfigured q' ex err)
  with assms(3,4) have "q' = q" by auto
  with upload_unconfigured(1) show ?thesis by (auto simp: asked_def)
next
  case (upload_not_run q' ex err)
  with assms(3,4) have "q' = q" by auto
  with upload_not_run(1) show ?thesis by (auto simp: asked_def)
next
  case (upload_garbled q' ex cmd u body)
  with assms(3,4) have "q' = q" by auto
  with upload_garbled(1) show ?thesis by (auto simp: asked_def)
next
  case (upload_malformed q' ex u resp err)
  with assms(3,4) have "q' = q" by auto
  with upload_malformed(1) show ?thesis by (auto simp: asked_def)
next
  case (upload_failed q' ex u resp t m)
  with assms(3,4) have "q' = q" by auto
  with upload_failed(1) show ?thesis by (auto simp: asked_def)
next
  case (upload_failed_silent q' ex u resp t err)
  with assms(3,4) have "q' = q" by auto
  with upload_failed_silent(1) show ?thesis by (auto simp: asked_def)
next
  case (upload_succeeded q' ex u resp m url tok)
  with assms(3,4) have "q' = q" by auto
  with upload_succeeded(1) show ?thesis by (auto simp: asked_def)
next
  case (upload_succeeded_crash q' ex u resp err outs)
  with assms(3,4) have "q' = q" by auto
  with upload_succeeded_crash(1) show ?thesis by (auto simp: asked_def)
qed

lemma registry_uploads:
  assumes "registry w n v s = (r, s')" and "env s ''slack_api_token'' \<noteq> None"
    and "\<forall>ev \<in> set (trace s). \<not> is_call ev" and "Upload u \<in> set (trace s')"
  shows "\<exists>cmd. upload_cmd (env s) = Inr cmd \<and> strs cmd = Some u"
  using assms(1,2)
proof (cases rule: registry_run_cases)
  case (upload_garbled q ex cmd u' body)
  with assms(3,4) show ?thesis by auto
next
  case (upload_malformed q ex u' resp err)
  with assms(3,4) have "u' = u" by auto
  with upload_malformed(3) show ?thesis by (auto simp: sent_def)
next
  case (upload_failed q ex u' resp t m)
  with assms(3,4) have "u' = u" by auto
  with upload_failed(3) show ?thesis by (auto simp: sent_def)
next
  case (upload_failed_silent q ex u' resp t err)
  with assms(3,4) have "u' = u" by auto
  with upload_failed_silent(3) show ?thesis by (auto simp: sent_def)
next
  case (upload_succeeded q ex u' resp m url tok)
  with assms(3,4) have "u' = u" by auto
  with upload_succeeded(3) show ?thesis by (auto simp: sent_def)
next
  case (upload_succeeded_crash q ex u' resp err outs)
  with assms(3,4) have "u' = u" by auto
  with upload_succeeded_crash(3) show ?thesis by (auto simp: sent_def)
qed (use assms(3,4) in auto)

subsection \<open>The claims about the flow\<close>

text \<open>
  C1. In a run whose existence query is answered with a JSON body whose \<^verbatim>\<open>exists\<close> field
  is true, nothing is uploaded and nobody is notified; and when the query has been made
  the flow returns normally. The hypothesis speaks of the queries of the run: a run
  that stops before the query uploads nothing either.
\<close>

theorem existing_package_is_not_uploaded:
  assumes "\<forall>q. ExistenceQuery q \<in> set (events w e f) \<longrightarrow>
             field (reply w q) ''exists'' = Some (PyBool True)"
  shows "(\<forall>u. Upload u \<notin> set (events w e f)) \<and>
         (\<forall>t m. Notify t m \<notin> set (events w e f)) \<and>
         ((\<exists>q. ExistenceQuery q \<in> set (events w e f)) \<longrightarrow> outcome w e f = Inr ())"
proof (cases w e f rule: process_cases)
  case (stopped s1)
  then show ?thesis
    using quiet_initial(1) [OF stopped(1)] by (auto simp: events_def)
next
  case (raised err s1)
  then show ?thesis
    using quiet_initial(1) [OF raised(1)] by (auto simp: events_def)
next
  case (reached n v s1)
  note pre = quiet_initial(1) [OF reached(1)]
  obtain r s' where run: "registry w n v s1 = (r, s')"
    by (cases "registry w n v s1")
  then have ev: "events w e f = trace s'" and out: "outcome w e f = r"
    using reached(2) by (simp_all add: events_def outcome_def)
  from run show ?thesis
  proof (cases rule: registry_cases)
    case (halted r0)
    from halted(1) show ?thesis
    proof (cases rule: check_existence_cases)
      case (unconfigured err)
      then show ?thesis using pre ev by auto
    next
      case (not_run err)
      then show ?thesis using pre ev by auto
    next
      case (garbled cmd q body)
      then have "ExistenceQuery q \<in> set (events w e f)" using ev by simp
      with assms have "field (reply w q) ''exists'' = Some (PyBool True)" by blast
      with garbled show ?thesis by (simp add: reply_def)
    next
      case (malformed cmd q resp err)
      then have "ExistenceQuery q \<in> set (events w e f)" using ev by simp
      with assms have "field (reply w q) ''exists'' = Some (PyBool True)" by blast
      with malformed show ?thesis by (simp add: field_Some)
    next
      case (present cmd q resp ex na va)
      then show ?thesis using pre ev out halted(3) by auto
    next
      case (missing cmd q resp ex)
      with halted show ?thesis by simp
    qed
  next
    case (continued s2)
    from continued(1) show ?thesis
    proof (cases rule: check_existence_cases)
      case (missing cmd q resp ex)
      from continued(2) have "\<exists>evs. trace s' = trace s2 @ evs"
        by (cases rule: upload_cases)
          (auto elim!: send_slack_notification_cases)
      with missing have "ExistenceQuery q \<in> set (events w e f)" using ev by auto
      with assms have "field (reply w q) ''exists'' = Some (PyBool True)" by blast
      with missing show ?thesis by (simp add: field_Some)
    qed simp_all
  qed
qed


theorem existing_package_is_not_uploaded_witness:
  "ExistenceQuery [''/usr/bin/curl'', ''--header'', ''X-Api-Key: k3y'', ''--url'',
       ''https://munki.example/api/communication/packages/My_App/1.0_beta_'']
     \<in> set (events (stub configured exists_true_body upload_success_body slack_ok) recipe disk) \<and>
   field (reply (stub configured exists_true_body upload_success_body slack_ok)
       [''/usr/bin/curl'', ''--header'', ''X-Api-Key: k3y'', ''--url'',
        ''https://munki.example/api/communication/packages/My_App/1.0_beta_'']) ''exists''
     = Some (PyBool True) \<and>
   (\<forall>u. Upload u \<notin> set (events (stub configured exists_true_body upload_success_body slack_ok)
       recipe disk)) \<and>
   outcome (stub configured exists_true_body upload_success_body slack_ok) recipe disk = Inr ()"
proof -
  let ?w = "stub configured exists_true_body upload_success_body slack_ok"
  let ?q = "[''/usr/bin/curl'', ''--header'', ''X-Api-Key: k3y'', ''--url'',
       ''https://munki.example/api/communication/packages/My_App/1.0_beta_'']"
  have ev: "events ?w recipe disk =
    [Output (PyStr ''No pkginfo file specified.  Creating /tmp/App.pkg.plist''),
     RunMakePkgInfo [''/usr/local/munki/makepkginfo'', ''/tmp/App.pkg''],
     WritePlist ''/tmp/App.pkg.plist''
       (PyDict [(''name'', PyStr ''My_App''), (''version'', PyStr ''1.0_beta_''),
                (''catalogs'', PyList [PyStr ''testing''])]),
     ExistenceQuery ?q,
     Output (PyStr ''My_App version 1.0_beta_ is already in munkiserver.  Quitting.'')]"
    by code_simp
  have rp: "field (reply ?w ?q) ''exists'' = Some (PyBool True)"
    by code_simp
  have hyp: "\<forall>q. ExistenceQuery q \<in> set (events ?w recipe disk) \<longrightarrow>
               field (reply ?w q) ''exists'' = Some (PyBool True)"
    unfolding ev using rp by simp
  show ?thesis
    using existing_package_is_not_uploaded [OF hyp] ev rp by simp
qed

text \<open>
  C2. In a run whose upload is answered with
  \<^verbatim>\<open>{"type":"success","message":...,"edit_url":...}\<close> there is exactly one notification
  call, and its text is the fixed notice followed by the \<^verbatim>\<open>edit_url\<close> of the answer.
  An upload is made only after the existence query has been answered with a false
  \<^verbatim>\<open>exists\<close>, so the other half of the claim's condition holds in every such run.
\<close>

theorem successful_upload_notifies_once:
  assumes "Upload u \<in> set (events w e f)"
    and "field (reply w u) ''type'' = Some (PyStr ''success'')"
    and "field (reply w u) ''message'' = Some (PyStr m)"
    and "field (reply w u) ''edit_url'' = Some (PyStr url)"
  shows "\<exists>tok. filter is_notify (events w e f) = [Notify tok (PyStr (notice @ url))]"
proof (cases w e f rule: flow_cases)
  case (early s1)
  with assms(1) show ?thesis by auto
next
  case (reached n v s1 r s')
  note pre = reached(6)
  from reached(2,7) show ?thesis
  proof (cases rule: registry_run_cases)
    case (upload_garbled q ex cmd u' body)
    with assms(1) pre reached(3) have "u' = u" by auto
    with upload_garbled assms(2) show ?thesis by (simp add: reply_def)
  next
    case (upload_malformed q ex u' resp err)
    with assms(1) pre reached(3) have "u' = u" by auto
    with upload_malformed assms(2) show ?thesis
      by (auto simp: field_Some dest!: sent_reply)
  next
    case (upload_failed q ex u' resp t m')
    with assms(1) pre reached(3) have "u' = u" by auto
    with upload_failed assms(2) show ?thesis
      by (auto simp: field_Some dest!: sent_reply)
  next
    case (upload_failed_silent q ex u' resp t err)
    with assms(1) pre reached(3) have "u' = u" by auto
    with upload_failed_silent assms(2) show ?thesis
      by (auto simp: field_Some dest!: sent_reply)
  next
    case (upload_succeeded q ex u' resp m' url' tok)
    with assms(1) pre reached(3) have "u' = u" by auto
    with upload_succeeded assms(4) have "url' = url"
      by (auto simp: field_Some dest!: sent_reply)
    with upload_succeeded reached(3) no_notify [OF pre] show ?thesis
      by simp
  next
    case (upload_succeeded_crash q ex u' resp err outs)
    with assms(1) pre reached(3) have "u' = u" by auto
    with upload_succeeded_crash assms(3,4) show ?thesis
      by (auto simp: field_Some dest!: sent_reply)
  qed (use assms(1) pre reached(3) in auto)
qed

theorem successful_upload_notifies_once_witness:
  "Upload [''/usr/bin/curl'', ''--header'', ''X-Api-Key: k3y'',
           ''-F'', ''pkginfo_file=@/tmp/App.pkg.plist'', ''-F'', ''package_file=@/tmp/App.pkg'',
           ''--url'', ''https://munki.example/api/communication/packages'']
     \<in> set (events (stub configured exists_false_body upload_success_body slack_ok) recipe disk) \<and>
   filter is_notify (events (stub configured exists_false_body upload_success_body slack_ok)
       recipe disk)
     = [Notify (PyStr ''xoxb'') (PyStr (notice @ ''http://x''))]"
proof -
  let ?w = "stub configured exists_false_body upload_success_body slack_ok"
  let ?u = "[''/usr/bin/curl'', ''--header'', ''X-Api-Key: k3y'',
           ''-F'', ''pkginfo_file=@/tmp/App.pkg.plist'', ''-F'', ''package_file=@/tmp/App.pkg'',
           ''--url'', ''https://munki.example/api/communication/packages'']"
  have up: "Upload ?u \<in> set (events ?w recipe disk)"
    by code_simp
  have ty: "field (reply ?w ?u) ''type'' = Some (PyStr ''success'')"
    by code_simp
  have msg: "field (reply ?w ?u) ''message'' = Some (PyStr ''ok'')"
    by code_simp
  have url: "field (reply ?w ?u) ''edit_url'' = Some (PyStr ''http://x'')"
    by code_simp
  have tok: "filter is_notify (events ?w recipe disk) \<noteq> [] \<and>
             (case hd (filter is_notify (events ?w recipe disk)) of
                Notify t x \<Rightarrow> t = PyStr ''xoxb'' | _ \<Rightarrow> False)"
    by code_simp
  show ?thesis
    using successful_upload_notifies_once [OF up ty msg url] up tok by auto
qed

lemma failed_upload_run:
  assumes "Upload u \<in> set (events w e f)" and "field (reply w u) ''type'' = Some t"
    and "t \<noteq> PyStr ''success''"
  shows "(\<forall>tok x. Notify tok x \<notin> set (events w e f)) \<and>
         (\<forall>m. field (reply w u) ''message'' = Some (PyStr m) \<longrightarrow>
              outcome w e f = Inr () \<and>
              last (events w e f) = Output (PyStr (''Upload failed: '' @ m)))"
proof (cases w e f rule: flow_cases)
  case (early s1)
  with assms(1) show ?thesis by auto
next
  case (reached n v s1 r s')
  note pre = reached(6)
  from reached(2,7) show ?thesis
  proof (cases rule: registry_run_cases)
    case (upload_garbled q ex cmd u' body)
    with assms(1) pre reached(3) have "u' = u" by auto
    with upload_garbled assms(2) show ?thesis by (simp add: reply_def)
  next
    case (upload_malformed q ex u' resp err)
    with assms(1) pre reached(3) have "u' = u" by auto
    with upload_malformed assms(2) show ?thesis
      by (auto simp: field_Some dest!: sent_reply)
  next
    case (upload_failed q ex u' resp t' m')
    with assms(1) pre reached(3) have "u' = u" by auto
    with upload_failed pre reached(3,4) show ?thesis
      by (auto simp: field_Some dest!: sent_reply)
  next
    case (upload_failed_silent q ex u' resp t' err)
    with assms(1) pre reached(3) have "u' = u" by auto
    with upload_failed_silent pre reached(3) show ?thesis
      by (auto simp: field_Some dest!: sent_reply)
  next
    case (upload_succeeded q ex u' resp m' url' tok)
    with assms(1) pre reached(3) have "u' = u" by auto
    with upload_succeeded assms(2,3) show ?thesis
      by (auto simp: field_Some dest!: sent_reply)
  next
    case (upload_succeeded_crash q ex u' resp err outs)
    with assms(1) pre reached(3) have "u' = u" by auto
    with upload_succeeded_crash assms(2,3) show ?thesis
      by (auto simp: field_Some dest!: sent_reply)
  qed (use assms(1) pre reached(3) in auto)
qed

lemma notified_run:
  assumes "Notify tok x \<in> set (events w e f)"
  shows "\<exists>u m url. Upload u \<in> set (events w e f) \<and>
           field (reply w u) ''type'' = Some (PyStr ''success'') \<and>
           field (reply w u) ''message'' = Some (PyStr m) \<and>
           field (reply w u) ''edit_url'' = Some (PyStr url) \<and>
           x = PyStr (notice @ url)"
proof (cases w e f rule: flow_cases)
  case (early s1)
  with assms(1) show ?thesis by auto
next
  case (reached n v s1 r s')
  note pre = reached(6)
  from reached(2,7) show ?thesis
  proof (cases rule: registry_run_cases)
    case (upload_succeeded q ex u resp m url tok')
    then have "reply w u = Some resp" by (auto dest: sent_reply)
    with upload_succeeded have "field (reply w u) ''type'' = Some (PyStr ''success'')"
      "field (reply w u) ''message'' = Some (PyStr m)"
      "field (reply w u) ''edit_url'' = Some (PyStr url)"
      by (simp_all add: field_Some)
    moreover have "Upload u \<in> set (events w e f)" "x = PyStr (notice @ url)"
      using upload_succeeded assms pre reached(3) by auto
    ultimately show ?thesis by blast
  qed (use assms(1) pre reached(3) in auto)
qed

text \<open>
  C4. In a run whose upload is answered with a \<^verbatim>\<open>type\<close> that is not \<^verbatim>\<open>"success"\<close>,
  nobody is notified, and the \<^verbatim>\<open>message\<close> of the answer is reported as the failure,
  which is the last thing the flow does before it returns. A notification is only ever
  made for an answer whose \<^verbatim>\<open>type\<close> is \<^verbatim>\<open>"success"\<close>, and it carries the
  \<^verbatim>\<open>edit_url\<close> of that answer.
\<close>

theorem failed_upload_is_reported:
  "(\<forall>u t. Upload u \<in> set (events w e f) \<and> field (reply w u) ''type'' = Some t \<and>
          t \<noteq> PyStr ''success'' \<longrightarrow>
      (\<forall>tok x. Notify tok x \<notin> set (events w e f)) \<and>
      (\<forall>m. field (reply w u) ''message'' = Some (PyStr m) \<longrightarrow>
           outcome w e f = Inr () \<and>
           last (events w e f) = Output (PyStr (''Upload failed: '' @ m)))) \<and>
   (\<forall>tok x. Notify tok x \<in> set (events w e f) \<longrightarrow>
      (\<exists>u m url. Upload u \<in> set (events w e f) \<and>
         field (reply w u) ''type'' = Some (PyStr ''success'') \<and>
         field (reply w u) ''message'' = Some (PyStr m) \<and>
         field (reply w u) ''edit_url'' = Some (PyStr url) \<and>
         x = PyStr (notice @ url)))"
  using failed_upload_run [of _ w e f] notified_run [of _ _ w e f] by blast

theorem failed_upload_is_reported_witness:
  "Upload [''/usr/bin/curl'', ''--header'', ''X-Api-Key: k3y'',
           ''-F'', ''pkginfo_file=@/tmp/App.pkg.plist'', ''-F'', ''package_file=@/tmp/App.pkg'',
           ''--url'', ''https://munki.example/api/communication/packages'']
     \<in> set (events (stub configured exists_false_body upload_error_body slack_ok) recipe disk) \<and>
   (\<forall>tok x. Notify tok x
      \<notin> set (events (stub configured exists_false_body upload_error_body slack_ok) recipe disk)) \<and>
   outcome (stub configured exists_false_body upload_error_body slack_ok) recipe disk = Inr () \<and>
   last (events (stub configured exists_false_body upload_error_body slack_ok) recipe disk)
     = Output (PyStr ''Upload failed: bad'')"
proof -
  let ?w = "stub configured exists_false_body upload_error_body slack_ok"
  let ?u = "[''/usr/bin/curl'', ''--header'', ''X-Api-Key: k3y'',
           ''-F'', ''pkginfo_file=@/tmp/App.pkg.plist'', ''-F'', ''package_file=@/tmp/App.pkg'',
           ''--url'', ''https://munki.example/api/communication/packages'']"
  have up: "Upload ?u \<in> set (events ?w recipe disk)"
    by code_simp
  have ty: "field (reply ?w ?u) ''type'' = Some (PyStr ''error'')"
    by code_simp
  have ne: "PyStr ''error'' \<noteq> PyStr ''success''"
    by simp
  have msg: "field (reply ?w ?u) ''message'' = Some (PyStr ''bad'')"
    by code_simp
  show ?thesis
    using failed_upload_is_reported [of ?w recipe disk] up ty ne msg by fastforce
qed

lemma registry_unconfigured:
  assumes "query_cmd (env s) n v = Inl err"
  shows "registry w n v s = (Inr (), s\<lparr>trace := trace s @ [Output config_hint]\<rparr>)"
  using assms by (simp add: registry_def check_existence_def exec_defs)

lemma absent_query_cmd:
  assumes "absent env0 ''api_url'' \<or> absent env0 ''api_key''"
  shows "\<exists>err. query_cmd env0 n v = Inl err"
proof (cases "query_cmd env0 n v")
  case (Inr cmd)
  with assms show ?thesis
    unfolding query_cmd_Inr absent_def by auto
qed blast

text \<open>
  C3. The claim says that whenever the registry URL or the API key is absent the flow
  reports a configuration error. The configuration is only looked at when the command of
  the existence query is built, after the artifact and the metadata: a run that stops
  earlier reports something else. Here the package file is not on disk.
\<close>

theorem configuration_error_not_always_reported:
  "absent (apply_defaults (os_environ (stub unconfigured exists_false_body upload_success_body
      slack_ok)) recipe_missing) ''api_url'' \<and>
   Output config_hint \<notin> set (events (stub unconfigured exists_false_body upload_success_body
      slack_ok) recipe_missing disk) \<and>
   events (stub unconfigured exists_false_body upload_success_body slack_ok) recipe_missing disk
     = [Output (PyStr ''package_file path:  /tmp/Missing.pkg''),
        Output (PyStr ''Package file not found'')]"
  by code_simp

text \<open>
  C3, as amended. When the registry URL or the API key is absent, no run makes a call
  (no existence query, no upload, no notification); and a run that has got the name and
  the version of the metadata reports the configuration error as its next and last
  event, and returns normally.
\<close>

theorem unconfigured_registry_is_not_called:
  assumes "absent (apply_defaults (os_environ w) e) ''api_url'' \<or>
           absent (apply_defaults (os_environ w) e) ''api_key''"
  shows "(\<forall>ev \<in> set (events w e f). \<not> is_call ev) \<and>
         (\<forall>n v s1. prepare w (initial w e f) = (Inr (Some (n, v)), s1) \<longrightarrow>
            outcome w e f = Inr () \<and> events w e f = trace s1 @ [Output config_hint])"
proof (cases w e f rule: flow_cases)
  case (early s1)
  then show ?thesis by auto
next
  case (reached n v s1 r s')
  have same: "env s1 ''api_url'' = apply_defaults (os_environ w) e ''api_url''"
    "env s1 ''api_key'' = apply_defaults (os_environ w) e ''api_key''"
    using quiet_initial(2) [OF reached(1)] by simp_all
  with assms have "absent (env s1) ''api_url'' \<or> absent (env s1) ''api_key''"
    by (simp add: absent_def)
  then obtain err where "query_cmd (env s1) n v = Inl err"
    using absent_query_cmd by blast
  then have "registry w n v s1 = (Inr (), s1\<lparr>trace := trace s1 @ [Output config_hint]\<rparr>)"
    by (rule registry_unconfigured)
  with reached show ?thesis
    by (auto simp: config_hint_def)
qed

theorem unconfigured_registry_is_not_called_witness:
  "absent (apply_defaults (os_environ (stub unconfigured exists_false_body upload_success_body
      slack_ok)) recipe_with_pkginfo) ''api_url'' \<and>
   fst (prepare (stub unconfigured exists_false_body upload_success_body slack_ok)
         (initial (stub unconfigured exists_false_body upload_success_body slack_ok)
            recipe_with_pkginfo disk_with_pkginfo))
     = Inr (Some (PyStr ''My App'', PyStr ''1.0 (beta)'')) \<and>
   outcome (stub unconfigured exists_false_body upload_success_body slack_ok)
      recipe_with_pkginfo disk_with_pkginfo = Inr () \<and>
   events (stub unconfigured exists_false_body upload_success_body slack_ok)
      recipe_with_pkginfo disk_with_pkginfo = [Output config_hint]"
proof -
  let ?w = "stub unconfigured exists_false_body upload_success_body slack_ok"
  let ?s0 = "initial ?w recipe_with_pkginfo disk_with_pkginfo"
  have ab: "absent (apply_defaults (os_environ ?w) recipe_with_pkginfo) ''api_url''"
    by code_simp
  have pr: "fst (prepare ?w ?s0) = Inr (Some (PyStr ''My App'', PyStr ''1.0 (beta)''))"
    by code_simp
  have tr: "trace (snd (prepare ?w ?s0)) = []"
    by code_simp
  have run: "prepare ?w ?s0 = (Inr (Some (PyStr ''My App'', PyStr ''1.0 (beta)'')), snd (prepare ?w ?s0))"
    using pr by (metis prod.collapse)
  show ?thesis
    using unconfigured_registry_is_not_called [OF disjI1 [OF ab], of disk_with_pkginfo]
      run tr ab pr by auto
qed

lemma unbuilt_endpoint_run:
  assumes "prepare w (initial w e f) = (Inr (Some (n, v)), s1)"
    and "query_cmd (env s1) n v = Inl err"
  shows "outcome w e f = Inr () \<and> events w e f = trace s1 @ [Output config_hint] \<and>
         (\<forall>ev \<in> set (events w e f). \<not> is_call ev)"
proof -
  have "process w e f = registry w n v s1"
    using assms(1) by (simp add: process_def main_def exec_defs)
  then have "process w e f = (Inr (), s1\<lparr>trace := trace s1 @ [Output config_hint]\<rparr>)"
    using registry_unconfigured [OF assms(2)] by simp
  then show ?thesis
    using quiet_initial(1) [OF assms(1)]
    by (auto simp: outcome_def events_def config_hint_def)
qed

lemma asked_reply: "asked w env0 n v q ex \<Longrightarrow> \<exists>resp. reply w q = Some resp"
  by (auto simp: asked_def)

lemma garbled_query_run:
  assumes "ExistenceQuery q \<in> set (events w e f)" and "curl w q = Some body"
    and "json_loads w body = None"
  shows "outcome w e f = Inl ValueError \<and> last (events w e f) = ExistenceQuery q \<and>
         (\<forall>u. Upload u \<notin> set (events w e f)) \<and>
         (\<forall>t x. Notify t x \<notin> set (events w e f))"
proof -
  have none: "reply w q = None"
    using assms(2,3) by (simp add: reply_def)
  show ?thesis
  proof (cases w e f rule: flow_cases)
    case (early s1)
    with assms(1) show ?thesis by auto
  next
    case (reached n v s1 r s')
    note pre = reached(6)
    have other: "\<And>q' ex. asked w (env s1) n v q' ex \<Longrightarrow> q' \<noteq> q"
      using none by (auto dest: asked_reply)
    from reached(2,7) show ?thesis
    proof (cases rule: registry_run_cases)
      case (unconfigured err)
      with assms(1) pre reached(3) show ?thesis by auto
    next
      case (query_not_run err)
      with assms(1) pre reached(3) show ?thesis by auto
    next
      case (query_garbled cmd q' body')
      with assms(1) pre reached(3) have "q' = q" by auto
      with query_garbled pre reached(3,4) show ?thesis by auto
    next
      case (query_malformed cmd q' resp err)
      with assms(1) pre reached(3) have "q' = q" by auto
      with query_malformed none show ?thesis by simp
    next
      case (present q' ex na va)
      with assms(1) pre reached(3) have "q' = q" by auto
      with present(1) other show ?thesis by blast
    next
      case (upload_unconfigured q' ex err)
      with assms(1) pre reached(3) have "q' = q" by auto
      with upload_unconfigured(1) other show ?thesis by blast
    next
      case (upload_not_run q' ex err)
      with assms(1) pre reached(3) have "q' = q" by auto
      with upload_not_run(1) other show ?thesis by blast
    next
      case (upload_garbled q' ex cmd u body')
      with assms(1) pre reached(3) have "q' = q" by auto
      with upload_garbled(1) other show ?thesis by blast
    next
      case (upload_malformed q' ex u resp err)
      with assms(1) pre reached(3) have "q' = q" by auto
      with upload_malformed(1) other show ?thesis by blast
    next
      case (upload_failed q' ex u resp t m)
      with assms(1) pre reached(3) have "q' = q" by auto
      with upload_failed(1) other show ?thesis by blast
    next
      case (upload_failed_silent q' ex u resp t err)
      with assms(1) pre reached(3) have "q' = q" by auto
      with upload_failed_silent(1) other show ?thesis by blast
    next
      case (upload_succeeded q' ex u resp m url tok)
      with assms(1) pre reached(3) have "q' = q" by auto
      with upload_succeeded(1) other show ?thesis by blast
    next
      case (upload_succeeded_crash q' ex u resp err outs)
      with assms(1) pre reached(3) have "q' = q" by auto
      with upload_succeeded_crash(1) other show ?thesis by blast
    qed
  qed
qed

text \<open>
  C8. The claim says that an existence query whose answer is not JSON ends in a reported
  diagnostic and an early, normal termination. \<^verbatim>\<open>json.loads\<close> is called at line 149
  outside any \<^verbatim>\<open>try\<close>: its ValueError leaves \<^verbatim>\<open>main\<close>, and nothing is reported after
  the query. Here the registry answers with an HTML error page.
\<close>

theorem unparseable_answer_raises:
  "curl (stub configured not_json_body upload_success_body slack_ok)
      [''/usr/bin/curl'', ''--header'', ''X-Api-Key: k3y'', ''--url'',
       ''https://munki.example/api/communication/packages/My_App/1.0_beta_'']
     = Some not_json_body \<and>
   json_loads (stub configured not_json_body upload_success_body slack_ok) not_json_body = None \<and>
   outcome (stub configured not_json_body upload_success_body slack_ok) recipe disk
     = Inl ValueError \<and>
   last (events (stub configured not_json_body upload_success_body slack_ok) recipe disk)
     = ExistenceQuery [''/usr/bin/curl'', ''--header'', ''X-Api-Key: k3y'', ''--url'',
         ''https://munki.example/api/communication/packages/My_App/1.0_beta_'']"
  by code_simp

text \<open>
  C8, as amended. When the command of the existence query cannot be built, the flow
  reports the diagnostic, makes no call and returns normally. When the answer to the
  existence query is not JSON, the flow ends there with the ValueError of the parser:
  the query is its last event, nothing is reported, uploaded or notified.
\<close>

theorem existence_query_failures:
  "(\<forall>n v s1 err. prepare w (initial w e f) = (Inr (Some (n, v)), s1) \<and>
        query_cmd (env s1) n v = Inl err \<longrightarrow>
      outcome w e f = Inr () \<and> events w e f = trace s1 @ [Output config_hint] \<and>
      (\<forall>ev \<in> set (events w e f). \<not> is_call ev)) \<and>
   (\<forall>q body. ExistenceQuery q \<in> set (events w e f) \<and> curl w q = Some body \<and>
        json_loads w body = None \<longrightarrow>
      outcome w e f = Inl ValueError \<and> last (events w e f) = ExistenceQuery q \<and>
      (\<forall>u. Upload u \<notin> set (events w e f)) \<and>
      (\<forall>t x. Notify t x \<notin> set (events w e f)))"
  using unbuilt_endpoint_run [of w e f] garbled_query_run [of _ w e f] by blast

theorem existence_query_failures_witness:
  "fst (prepare (stub unconfigured exists_false_body upload_success_body slack_ok)
         (initial (stub unconfigured exists_false_body upload_success_body slack_ok)
            recipe_with_pkginfo disk_with_pkginfo))
     = Inr (Some (PyStr ''My App'', PyStr ''1.0 (beta)'')) \<and>
   query_cmd (env (snd (prepare (stub unconfigured exists_false_body upload_success_body slack_ok)
         (initial (stub unconfigured exists_false_body upload_success_body slack_ok)
            recipe_with_pkginfo disk_with_pkginfo))))
       (PyStr ''My App'') (PyStr ''1.0 (beta)'') = Inl TypeError \<and>
   outcome (stub unconfigured exists_false_body upload_success_body slack_ok)
      recipe_with_pkginfo disk_with_pkginfo = Inr () \<and>
   events (stub unconfigured exists_false_body upload_success_body slack_ok)
      recipe_with_pkginfo disk_with_pkginfo = [Output config_hint] \<and>
   ExistenceQuery [''/usr/bin/curl'', ''--header'', ''X-Api-Key: k3y'', ''--url'',
       ''https://munki.example/api/communication/packages/My_App/1.0_beta_'']
     \<in> set (events (stub configured not_json_body upload_success_body slack_ok) recipe disk) \<and>
   outcome (stub configured not_json_body upload_success_body slack_ok) recipe disk
     = Inl ValueError \<and>
   (\<forall>u. Upload u
      \<notin> set (events (stub configured not_json_body upload_success_body slack_ok) recipe disk))"
proof -
  let ?w = "stub unconfigured exists_false_body upload_success_body slack_ok"
  let ?s0 = "initial ?w recipe_with_pkginfo disk_with_pkginfo"
  let ?g = "stub configured not_json_body upload_success_body slack_ok"
  let ?q = "[''/usr/bin/curl'', ''--header'', ''X-Api-Key: k3y'', ''--url'',
       ''https://munki.example/api/communication/packages/My_App/1.0_beta_'']"
  have pr: "fst (prepare ?w ?s0) = Inr (Some (PyStr ''My App'', PyStr ''1.0 (beta)''))"
    by code_simp
  have tr: "trace (snd (prepare ?w ?s0)) = []"
    by code_simp
  have qc: "query_cmd (env (snd (prepare ?w ?s0))) (PyStr ''My App'') (PyStr ''1.0 (beta)'')
              = Inl TypeError"
    by code_simp
  have run: "prepare ?w ?s0
      = (Inr (Some (PyStr ''My App'', PyStr ''1.0 (beta)'')), snd (prepare ?w ?s0))"
    using pr by (metis prod.collapse)
  have ev: "ExistenceQuery ?q \<in> set (events ?g recipe disk)"
    by code_simp
  have bd: "curl ?g ?q = Some not_json_body"
    by code_simp
  have nj: "json_loads ?g not_json_body = None"
    by code_simp
  note built = existence_query_failures [of ?w recipe_with_pkginfo disk_with_pkginfo,
      THEN conjunct1, rule_format, OF conjI [OF run qc]]
  note garbled = existence_query_failures [of ?g recipe disk,
      THEN conjunct2, rule_format, OF conjI [OF ev conjI [OF bd nj]]]
  have first: "outcome ?w recipe_with_pkginfo disk_with_pkginfo = Inr () \<and>
      events ?w recipe_with_pkginfo disk_with_pkginfo = [Output config_hint]"
    using built tr by simp
  have second: "outcome ?g recipe disk = Inl ValueError \<and>
      (\<forall>u. Upload u \<notin> set (events ?g recipe disk))"
    using garbled by blast
  show ?thesis
    using pr qc first second ev by blast
qed

subsection \<open>The notifier\<close>

text \<open>Whatever Slack answers, an answer whose \<^verbatim>\<open>ok\<close> is false makes line 107 add a
  dict to a string, which raises TypeError before anything is printed.\<close>

lemma falsy_ok_raises:
  assumes "env s ''slack_api_token'' = Some tok" and "slack_api_call w tok m = Inr res"
    and "getitem res ''ok'' = Inr ok" and "\<not> truthy ok"
  shows "send_slack_notification w m s = (Inl TypeError, s\<lparr>trace := trace s @ [Notify tok m]\<rparr>)"
  using assms
  by (auto simp: send_slack_notification_def api_call_def exec_defs item_def getitem_Inr)

text \<open>
  C7. The claim says that a notification Slack refuses (\<^verbatim>\<open>ok\<close> false) is logged and
  swallowed. Line 107 builds the log line as \<^verbatim>\<open>"Failed to send Slack notification: " + result\<close>
  with \<^verbatim>\<open>result\<close> the dict of the answer: the concatenation raises TypeError, nothing is
  logged, and the exception leaves \<^verbatim>\<open>send_slack_notification\<close> and \<^verbatim>\<open>main\<close>, although
  the upload has succeeded. With an answer whose \<^verbatim>\<open>ok\<close> is true the same run returns
  normally.
\<close>

theorem refused_notification_raises:
  "slack_api_call (stub configured exists_false_body upload_success_body slack_refused)
      (PyStr ''xoxb'') (PyStr (notice @ ''http://x'')) = Inr slack_refused \<and>
   getitem slack_refused ''ok'' = Inr (PyBool False) \<and>
   fst (send_slack_notification
          (stub configured exists_false_body upload_success_body slack_refused)
          (PyStr (notice @ ''http://x''))
          (initial (stub configured exists_false_body upload_success_body slack_refused)
             recipe disk))
     = Inl TypeError \<and>
   trace (snd (send_slack_notification
          (stub configured exists_false_body upload_success_body slack_refused)
          (PyStr (notice @ ''http://x''))
          (initial (stub configured exists_false_body upload_success_body slack_refused)
             recipe disk)))
     = [Notify (PyStr ''xoxb'') (PyStr (notice @ ''http://x''))] \<and>
   outcome (stub configured exists_false_body upload_success_body slack_refused) recipe disk
     = Inl TypeError \<and>
   outcome (stub configured exists_false_body upload_success_body slack_ok) recipe disk
     = Inr ()"
  by code_simp

subsection \<open>The claims about the metadata\<close>

text \<open>
  C9. Every record the flow persists to the metadata file is the record parsed from the
  output of the metadata tool with only \<^verbatim>\<open>name\<close> and \<^verbatim>\<open>version\<close> changed: every other
  field reads the same in both, the two fields hold their sanitized values, and the
  record is what the file holds when the flow ends.
\<close>

theorem sanitization_changes_name_and_version_only:
  assumes "WritePlist p written \<in> set (events w e f)"
  shows "\<exists>args parsed. RunMakePkgInfo args \<in> set (events w e f) \<and>
           makepkginfo w args = Some (Plist parsed) \<and>
           fs (snd (process w e f)) p = Some (Plist written) \<and>
           (\<forall>k. k \<noteq> ''name'' \<and> k \<noteq> ''version'' \<longrightarrow> getitem written k = getitem parsed k) \<and>
           (\<exists>n v. getitem parsed ''name'' = Inr (PyStr n) \<and>
                  getitem parsed ''version'' = Inr (PyStr v) \<and>
                  getitem written ''name'' = Inr (PyStr (re_sub n)) \<and>
                  getitem written ''version'' = Inr (PyStr (re_sub v)))"
proof -
  have found: "\<exists>args parsed plist1. RunMakePkgInfo args \<in> set (events w e f) \<and>
           makepkginfo w args = Some (Plist parsed) \<and>
           sanitize_field parsed ''name'' = Inr plist1 \<and>
           sanitize_field plist1 ''version'' = Inr written \<and>
           fs (snd (process w e f)) p = Some (Plist written)"
  proof -
    have t0: "trace (initial w e f) = []"
      by (simp add: initial_def)
    from flow_split [of w e f]
    obtain s1 e2 r where m: "events w e f = trace s1 @ e2"
      "fs (snd (process w e f)) = fs s1" "\<forall>ev \<in> set e2. is_output ev \<or> is_call ev"
      "prepare w (initial w e f) = (r, s1)"
      by blast
    from prepare_written [OF m(4)] obtain e1 where e1: "trace s1 = trace (initial w e f) @ e1"
      "\<forall>p x. WritePlist p x \<in> set e1 \<longrightarrow>
       (\<exists>args parsed plist1. RunMakePkgInfo args \<in> set e1 \<and>
          makepkginfo w args = Some (Plist parsed) \<and>
          sanitize_field parsed ''name'' = Inr plist1 \<and>
          sanitize_field plist1 ''version'' = Inr x \<and>
          fs s1 p = Some (Plist x))"
      by blast
    have tr: "events w e f = e1 @ e2"
      using m(1) e1(1) t0 by simp
    have "WritePlist p written \<notin> set e2"
      using m(3) by auto
    with assms tr have "WritePlist p written \<in> set e1"
      by simp
    with e1(2) obtain args parsed plist1 where g: "RunMakePkgInfo args \<in> set e1"
      "makepkginfo w args = Some (Plist parsed)" "sanitize_field parsed ''name'' = Inr plist1"
      "sanitize_field plist1 ''version'' = Inr written" "fs s1 p = Some (Plist written)"
      by blast
    have "RunMakePkgInfo args \<in> set (events w e f)"
      using g(1) tr by simp
    moreover have "fs (snd (process w e f)) p = Some (Plist written)"
      using g(5) m(2) by simp
    ultimately show ?thesis
      using g(2,3,4) by blast
  qed
  then obtain args parsed plist1 where a: "RunMakePkgInfo args \<in> set (events w e f)"
    "makepkginfo w args = Some (Plist parsed)" "sanitize_field parsed ''name'' = Inr plist1"
    "sanitize_field plist1 ''version'' = Inr written"
    "fs (snd (process w e f)) p = Some (Plist written)"
    by blast
  from sanitized_frame [OF a(3,4)] a(1,2,5) show ?thesis
    by (intro exI [of _ args] exI [of _ parsed]) simp
qed


theorem sanitization_changes_name_and_version_only_witness:
  "WritePlist ''/tmp/App.pkg.plist''
      (PyDict [(''name'', PyStr ''My_App''), (''version'', PyStr ''1.0_beta_''),
               (''catalogs'', PyList [PyStr ''testing''])])
     \<in> set (events (stub configured exists_true_body upload_success_body slack_ok) recipe disk) \<and>
   (\<exists>args parsed.
      RunMakePkgInfo args
        \<in> set (events (stub configured exists_true_body upload_success_body slack_ok) recipe disk) \<and>
      makepkginfo (stub configured exists_true_body upload_success_body slack_ok) args
        = Some (Plist parsed) \<and>
      getitem parsed ''catalogs'' = Inr (PyList [PyStr ''testing'']))"
proof -
  let ?w = "stub configured exists_true_body upload_success_body slack_ok"
  let ?x = "PyDict [(''name'', PyStr ''My_App''), (''version'', PyStr ''1.0_beta_''),
               (''catalogs'', PyList [PyStr ''testing''])]"
  have mem: "WritePlist ''/tmp/App.pkg.plist'' ?x \<in> set (events ?w recipe disk)"
    by code_simp
  have cat: "getitem ?x ''catalogs'' = Inr (PyList [PyStr ''testing''])"
    by simp
  from sanitization_changes_name_and_version_only [OF mem]
  obtain args parsed where g: "RunMakePkgInfo args \<in> set (events ?w recipe disk)"
    "makepkginfo ?w args = Some (Plist parsed)"
    "\<forall>k. k \<noteq> ''name'' \<and> k \<noteq> ''version'' \<longrightarrow> getitem ?x k = getitem parsed k"
    by blast
  have "getitem ?x ''catalogs'' = getitem parsed ''catalogs''"
    by (rule g(3) [rule_format]) simp
  with cat have "getitem parsed ''catalogs'' = Inr (PyList [PyStr ''testing''])"
    by simp
  with g(1,2) have "\<exists>args parsed. RunMakePkgInfo args \<in> set (events ?w recipe disk) \<and>
      makepkginfo ?w args = Some (Plist parsed) \<and>
      getitem parsed ''catalogs'' = Inr (PyList [PyStr ''testing''])"
    by blast
  with mem show ?thesis
    by blast
qed

text \<open>A run whose recipe supplies the metadata file.\<close>

lemma supplied_initial:
  assumes "e ''pkginfo_file'' = Some path"
  shows "env (initial w e f) ''pkginfo_file'' = Some path"
  using assms by (simp add: initial_def apply_defaults_def)

lemma supplied_disk:
  assumes "e ''pkginfo_file'' = Some path"
  shows "fs (snd (process w e f)) = f \<and> (\<forall>ev \<in> set (events w e f). is_output ev \<or> is_call ev)"
proof -
  from flow_split [of w e f]
  obtain s1 e2 r where m: "events w e f = trace s1 @ e2"
    "fs (snd (process w e f)) = fs s1" "\<forall>ev \<in> set e2. is_output ev \<or> is_call ev"
    "prepare w (initial w e f) = (r, s1)"
    by blast
  from prepare_supplied [OF supplied_initial [where e = e and path = path, OF assms] m(4)]
  obtain e1 where e1: "fs s1 = fs (initial w e f)" "trace s1 = trace (initial w e f) @ e1"
    "\<forall>ev \<in> set e1. is_output ev"
    by (elim conjE exE)
  have "fs (snd (process w e f)) = f"
    using m(2) e1(1) by (simp add: initial_def)
  moreover have "events w e f = e1 @ e2"
    using m(1) e1(2) by (simp add: initial_def)
  then have "\<forall>ev \<in> set (events w e f). is_output ev \<or> is_call ev"
    using m(3) e1(3) by auto
  ultimately show ?thesis by simp
qed

lemma supplied_query:
  assumes "e ''pkginfo_file'' = Some path" and "ExistenceQuery q \<in> set (events w e f)"
  shows "\<exists>p d n v a u. path = PyStr p \<and> f p = Some (Plist (PyDict d)) \<and>
           map_of d ''name'' = Some (PyStr n) \<and> map_of d ''version'' = Some (PyStr v) \<and>
           apply_defaults (os_environ w) e ''api_url'' = Some (PyStr a) \<and>
           apply_defaults (os_environ w) e ''unit'' = Some (PyStr u) \<and>
           last q = a @ ''/'' @ u @ ''/packages/'' @ n @ ''/'' @ v"
proof (cases w e f rule: flow_cases)
  case (early s1)
  with assms(2) show ?thesis by auto
next
  case (reached n v s1 r s')
  from prepare_supplied [OF supplied_initial [where e = e and path = path, OF assms(1)] reached(1)]
  obtain p d where pd: "path = PyStr p" "fs (initial w e f) p = Some (Plist (PyDict d))"
    "map_of d ''name'' = Some n" "map_of d ''version'' = Some v"
    by blast
  from assms(2) reached(3) have "ExistenceQuery q \<in> set (trace s')" by simp
  from registry_queries [OF reached(2,7,6) this]
  obtain cmd where "query_cmd (env s1) n v = Inr cmd" "strs cmd = Some q" by blast
  from query_last [OF this]
  obtain a u na va where q: "env s1 ''api_url'' = Some (PyStr a)"
    "env s1 ''unit'' = Some (PyStr u)" "n = PyStr na" "v = PyStr va"
    "last q = a @ ''/'' @ u @ ''/packages/'' @ na @ ''/'' @ va"
    by blast
  have "apply_defaults (os_environ w) e ''api_url'' = Some (PyStr a)"
    "apply_defaults (os_environ w) e ''unit'' = Some (PyStr u)"
    using quiet_initial(2) [OF reached(1)] q(1,2) by simp_all
  moreover have "f p = Some (Plist (PyDict d))"
    using pd(2) by (simp add: initial_def)
  ultimately show ?thesis
    using pd(1,3,4) q(3,4,5)
    by (intro exI [of _ p] exI [of _ d] exI [of _ na] exI [of _ va] exI [of _ a] exI [of _ u])
      simp
qed

lemma supplied_upload:
  assumes "e ''pkginfo_file'' = Some path" and "Upload u \<in> set (events w e f)"
  shows "\<exists>p. path = PyStr p \<and> ''pkginfo_file=@'' @ p \<in> set u"
proof (cases w e f rule: flow_cases)
  case (early s1)
  with assms(2) show ?thesis by auto
next
  case (reached n v s1 r s')
  from prepare_supplied [OF supplied_initial [where e = e and path = path, OF assms(1)] reached(1)]
  have pi: "env s1 ''pkginfo_file'' = Some path" by simp
  from assms(2) reached(3) have "Upload u \<in> set (trace s')" by simp
  from registry_uploads [OF reached(2,7,6) this]
  obtain cmd where "upload_cmd (env s1) = Inr cmd" "strs cmd = Some u" by blast
  from upload_has_file [OF this] pi show ?thesis by auto
qed

text \<open>
  C10. In a run whose caller supplies \<^verbatim>\<open>pkginfo_file\<close>, the metadata tool is not run and
  nothing is written: the files are at the end what they were at the start. The URL of
  the existence query ends with the \<^verbatim>\<open>name\<close> and the \<^verbatim>\<open>version\<close> of the supplied file
  exactly as the file holds them, whatever their characters, and the upload sends the
  supplied file.
\<close>

theorem supplied_metadata_is_used_verbatim:
  assumes "e ''pkginfo_file'' = Some path"
  shows "fs (snd (process w e f)) = f \<and>
     (\<forall>ev \<in> set (events w e f). is_output ev \<or> is_call ev) \<and>
     (\<forall>q. ExistenceQuery q \<in> set (events w e f) \<longrightarrow>
        (\<exists>p d n v a u. path = PyStr p \<and> f p = Some (Plist (PyDict d)) \<and>
           map_of d ''name'' = Some (PyStr n) \<and> map_of d ''version'' = Some (PyStr v) \<and>
           apply_defaults (os_environ w) e ''api_url'' = Some (PyStr a) \<and>
           apply_defaults (os_environ w) e ''unit'' = Some (PyStr u) \<and>
           last q = a @ ''/'' @ u @ ''/packages/'' @ n @ ''/'' @ v)) \<and>
     (\<forall>u. Upload u \<in> set (events w e f) \<longrightarrow>
        (\<exists>p. path = PyStr p \<and> ''pkginfo_file=@'' @ p \<in> set u))"
proof (intro conjI allI impI)
  show "fs (snd (process w e f)) = f"
    using supplied_disk [where e = e and path = path, OF assms] by simp
  show "\<forall>ev \<in> set (events w e f). is_output ev \<or> is_call ev"
    using supplied_disk [where e = e and path = path, OF assms] by simp
next
  fix q
  assume "ExistenceQuery q \<in> set (events w e f)"
  with assms show "\<exists>p d n v a u. path = PyStr p \<and> f p = Some (Plist (PyDict d)) \<and>
           map_of d ''name'' = Some (PyStr n) \<and> map_of d ''version'' = Some (PyStr v) \<and>
           apply_defaults (os_environ w) e ''api_url'' = Some (PyStr a) \<and>
           apply_defaults (os_environ w) e ''unit'' = Some (PyStr u) \<and>
           last q = a @ ''/'' @ u @ ''/packages/'' @ n @ ''/'' @ v"
    by (rule supplied_query)
next
  fix u
  assume "Upload u \<in> set (events w e f)"
  with assms show "\<exists>p. path = PyStr p \<and> ''pkginfo_file=@'' @ p \<in> set u"
    by (rule supplied_upload)
qed

theorem supplied_metadata_is_used_verbatim_witness:
  "recipe_with_pkginfo ''pkginfo_file'' = Some (PyStr ''/tmp/App.plist'') \<and>
   events (stub configured exists_false_body upload_success_body slack_ok)
      recipe_with_pkginfo disk_with_pkginfo
     = [ExistenceQuery [''/usr/bin/curl'', ''--header'', ''X-Api-Key: k3y'', ''--url'',
          ''https://munki.example/api/communication/packages/My App/1.0 (beta)''],
        Upload [''/usr/bin/curl'', ''--header'', ''X-Api-Key: k3y'',
          ''-F'', ''pkginfo_file=@/tmp/App.plist'', ''-F'', ''package_file=@/tmp/App.pkg'',
          ''--url'', ''https://munki.example/api/communication/packages''],
        Output (PyStr ''Upload succeeded: ok''), Output (PyStr ''URL: http://x''),
        Notify (PyStr ''xoxb'') (PyStr (notice @ ''http://x''))] \<and>
   fs (snd (process (stub configured exists_false_body upload_success_body slack_ok)
      recipe_with_pkginfo disk_with_pkginfo)) = disk_with_pkginfo"
proof -
  let ?w = "stub configured exists_false_body upload_success_body slack_ok"
  have sup: "recipe_with_pkginfo ''pkginfo_file'' = Some (PyStr ''/tmp/App.plist'')"
    by (simp add: recipe_with_pkginfo_def)
  have ev: "events ?w recipe_with_pkginfo disk_with_pkginfo
     = [ExistenceQuery [''/usr/bin/curl'', ''--header'', ''X-Api-Key: k3y'', ''--url'',
          ''https://munki.example/api/communication/packages/My App/1.0 (beta)''],
        Upload [''/usr/bin/curl'', ''--header'', ''X-Api-Key: k3y'',
          ''-F'', ''pkginfo_file=@/tmp/App.plist'', ''-F'', ''package_file=@/tmp/App.pkg'',
          ''--url'', ''https://munki.example/api/communication/packages''],
        Output (PyStr ''Upload succeeded: ok''), Output (PyStr ''URL: http://x''),
        Notify (PyStr ''xoxb'') (PyStr (notice @ ''http://x''))]"
    by code_simp
  show ?thesis
    using supplied_metadata_is_used_verbatim [where e = recipe_with_pkginfo
        and path = "PyStr ''/tmp/App.plist''" and w = ?w and f = disk_with_pkginfo, OF sup] sup ev
    by simp
qed

end
